theory Spec2Isabelle
  imports Main "HOL-Library.Sublist"
begin

text \<open>
  A model of \<^verbatim>\<open>core.py\<close>, the client of the Telegram bot API: the class \<^verbatim>\<open>TelegramBot\<close>
  (\<^verbatim>\<open>sendRequest\<close>, \<^verbatim>\<open>getUpdate\<close>, \<^verbatim>\<open>sendMsg\<close>, \<^verbatim>\<open>sendMsgToAdmin\<close>, \<^verbatim>\<open>sendKeyboard\<close>,
  \<^verbatim>\<open>deletMessage\<close>, \<^verbatim>\<open>writeLog\<close>, \<^verbatim>\<open>errorHandler\<close>) and the serializers of the classes
  \<^verbatim>\<open>InlineKeyboard\<close> and \<^verbatim>\<open>ReplyKeyboard\<close>. The bot's fields are a record that every method
  takes and returns; the network, the clock and the file system are a second record, the
  world; an exception is a value.
\<close>

section \<open>Python values and the operations core.py applies to them\<close>

text \<open>
  The values that flow through \<^verbatim>\<open>core.py\<close>: what \<^verbatim>\<open>json.loads\<close> returns for a response
  body (None, booleans, integers, strings, lists, dictionaries with string keys) and the
  arguments of the facade. A string of the model is the UTF-8 encoding of a Python text,
  with a lone surrogate (which a Python text can hold and UTF-8 cannot) encoded in three
  bytes like the code points around it; every character the code inspects or inserts is
  ASCII, so concatenation and \<^verbatim>\<open>result[:-1]\<close> act on the bytes as they act on the code
  points. JSON numbers with a fraction or an exponent (Python floats) are not represented:
  the update ids, chat ids and error codes of the bot API are integers.
\<close>

datatype pyval =
    PNone
  | PBool bool
  | PInt int
  | PStr string
  | PList "pyval list"
  | PDict "(string \<times> pyval) list"

text \<open>
  The exceptions that reach the caller of a method: those that the statements of core.py
  raise outside the \<^verbatim>\<open>try\<close> block of \<^verbatim>\<open>sendRequest\<close>, by their class (the subclasses of
  OSError, such as FileNotFoundError, PermissionError and a connection that breaks, as
  OSError), and those that are not of class \<^verbatim>\<open>Exception\<close>, which the \<^verbatim>\<open>except\<close> clause
  of \<^verbatim>\<open>sendRequest\<close> lets pass.
\<close>

datatype interrupt = KeyboardInterrupt | SystemExit

datatype exn =
    KeyError string
  | TypeError
  | IndexError
  | OSError
  | ValueError
  | UnicodeEncodeError
  | UnicodeDecodeError
  | HTTPException
  | Interrupt interrupt

subsection \<open>Text as UTF-8\<close>

text \<open>
  \<open>decode1\<close> reads the first code point of a byte sequence and says how many bytes it
  takes: one byte below 0x80, two from a lead byte 0xC2 to 0xDF, three from 0xE0 to 0xEF,
  four from 0xF0 to 0xF4, the other bytes continuation bytes (0x80 to 0xBF), and no code
  point written longer than it needs or beyond 0x10FFFF. A byte that begins no code point
  is read alone, as no code point; the encoding of a Python text holds no such byte.
\<close>

definition cont :: "char \<Rightarrow> bool" where
  "cont c \<longleftrightarrow> 0x80 \<le> (of_char c :: nat) \<and> (of_char c :: nat) < 0xC0"

definition low6 :: "char \<Rightarrow> nat" where
  "low6 c = of_char c - 0x80"

fun decode1 :: "string \<Rightarrow> nat option \<times> nat" where
  "decode1 [] = (None, 0)"
| "decode1 (a # bs) =
     (let n = (of_char a :: nat) in
      if n < 0x80 then (Some n, 1)
      else if 0xC2 \<le> n \<and> n < 0xE0 then
        (case bs of
           b # _ \<Rightarrow> if cont b then (Some ((n - 0xC0) * 64 + low6 b), 2) else (None, 1)
         | _ \<Rightarrow> (None, 1))
      else if 0xE0 \<le> n \<and> n < 0xF0 then
        (case bs of
           b # c # _ \<Rightarrow>
             if cont b \<and> cont c \<and> 0x800 \<le> (n - 0xE0) * 4096 + low6 b * 64 + low6 c
             then (Some ((n - 0xE0) * 4096 + low6 b * 64 + low6 c), 3)
             else (None, 1)
         | _ \<Rightarrow> (None, 1))
      else if 0xF0 \<le> n \<and> n < 0xF5 then
        (case bs of
           b # c # d # _ \<Rightarrow>
             if cont b \<and> cont c \<and> cont d \<and>
                0x10000 \<le> (n - 0xF0) * 262144 + low6 b * 4096 + low6 c * 64 + low6 d \<and>
                (n - 0xF0) * 262144 + low6 b * 4096 + low6 c * 64 + low6 d < 0x110000
             then (Some ((n - 0xF0) * 262144 + low6 b * 4096 + low6 c * 64 + low6 d), 4)
             else (None, 1)
         | _ \<Rightarrow> (None, 1))
      else (None, 1))"

text \<open>The code points of a string, each with the bytes that encode it.\<close>

function code_points :: "string \<Rightarrow> (nat option \<times> string) list" where
  "code_points [] = []"
| "code_points (a # bs) =
     (fst (decode1 (a # bs)), take (snd (decode1 (a # bs))) (a # bs))
     # code_points (drop (snd (decode1 (a # bs))) (a # bs))"
  by pat_completeness auto
termination
proof (relation "measure length")
  show "wf (measure length)" by simp
next
  fix a :: char and bs :: string
  have "0 < snd (decode1 (a # bs))" by (simp add: Let_def split: list.splits)
  then show "(drop (snd (decode1 (a # bs))) (a # bs), a # bs) \<in> measure length"
    by simp
qed

text \<open>
  \<^verbatim>\<open>str.encode("utf-8")\<close> and \<^verbatim>\<open>bytes.decode("utf-8")\<close>, both strict: a text is encoded
  unless it holds a surrogate, and bytes are decoded when they are well-formed UTF-8,
  which has no surrogate either. \<open>encodable_prefix\<close> is the part of a text before the
  first code point that cannot be encoded.
\<close>

definition surrogate :: "nat \<Rightarrow> bool" where
  "surrogate c \<longleftrightarrow> 0xD800 \<le> c \<and> c < 0xE000"

definition scalar :: "nat option \<times> string \<Rightarrow> bool" where
  "scalar e = (case fst e of None \<Rightarrow> False | Some c \<Rightarrow> \<not> surrogate c)"

definition valid_utf8 :: "string \<Rightarrow> bool" where
  "valid_utf8 s = list_all scalar (code_points s)"

definition encode_utf8 :: "string \<Rightarrow> exn + string" where
  "encode_utf8 s = (if valid_utf8 s then Inr s else Inl UnicodeEncodeError)"

definition decode_utf8 :: "string \<Rightarrow> exn + string" where
  "decode_utf8 bs = (if valid_utf8 bs then Inr bs else Inl UnicodeDecodeError)"

definition encodable_prefix :: "string \<Rightarrow> string" where
  "encodable_prefix s = concat (map snd (takeWhile scalar (code_points s)))"

subsection \<open>Truth values, items and sums\<close>

text \<open>Truth value testing, as \<^verbatim>\<open>if x:\<close> and \<^verbatim>\<open>not x\<close> do it.\<close>

fun truthy :: "pyval \<Rightarrow> bool" where
  "truthy PNone = False"
| "truthy (PBool b) = b"
| "truthy (PInt i) = (i \<noteq> 0)"
| "truthy (PStr s) = (s \<noteq> [])"
| "truthy (PList xs) = (xs \<noteq> [])"
| "truthy (PDict kvs) = (kvs \<noteq> [])"

text \<open>\<^verbatim>\<open>x[key]\<close> for a string key: only a dictionary can answer.\<close>

fun getitem :: "pyval \<Rightarrow> string \<Rightarrow> exn + pyval" where
  "getitem (PDict kvs) k = (case map_of kvs k of None \<Rightarrow> Inl (KeyError k) | Some v \<Rightarrow> Inr v)"
| "getitem v k = Inl TypeError"

text \<open>
  \<^verbatim>\<open>x[0]\<close>: the first element of a list, the first character of a string, IndexError when
  either is empty; a dictionary from JSON has string keys only, so the key 0 is missing.
\<close>

fun getitem0 :: "pyval \<Rightarrow> exn + pyval" where
  "getitem0 (PList xs) = (case xs of [] \<Rightarrow> Inl IndexError | x # _ \<Rightarrow> Inr x)"
| "getitem0 (PStr s) =
     (case code_points s of [] \<Rightarrow> Inl IndexError | e # _ \<Rightarrow> Inr (PStr (snd e)))"
| "getitem0 (PDict kvs) = Inl (KeyError ''0'')"
| "getitem0 v = Inl TypeError"

text \<open>\<^verbatim>\<open>x + 1\<close>: defined on integers (and booleans, which are integers in Python).\<close>

fun add1 :: "pyval \<Rightarrow> exn + int" where
  "add1 (PInt i) = Inr (i + 1)"
| "add1 (PBool b) = Inr ((if b then 1 else 0) + 1)"
| "add1 v = Inl TypeError"

subsection \<open>str and repr\<close>

definition digit_chars :: string where
  "digit_chars = ''0123456789''"

definition hex_lower :: string where
  "hex_lower = ''0123456789abcdef''"

definition hex_upper :: string where
  "hex_upper = ''0123456789ABCDEF''"

fun str_nat :: "nat \<Rightarrow> string" where
  "str_nat n = (if n < 10 then [digit_chars ! n]
                else str_nat (n div 10) @ [digit_chars ! (n mod 10)])"

declare str_nat.simps [simp del]

definition str_int :: "int \<Rightarrow> string" where
  "str_int i = (if i < 0 then ''-'' @ str_nat (nat (- i)) else str_nat (nat i))"

definition join :: "string \<Rightarrow> string list \<Rightarrow> string" where
  "join sep xs = (case xs of [] \<Rightarrow> [] | x # ys \<Rightarrow> x @ concat (map (\<lambda>y. sep @ y) ys))"

text \<open>
  \<^verbatim>\<open>repr\<close> of a string, code point by code point: single quotes unless the string holds
  a single quote and no double quote; the quote and the backslash are escaped; tab,
  newline and carriage return are written \<^verbatim>\<open>\t \n \r\<close>, the other control characters of
  ASCII \<^verbatim>\<open>\xNN\<close>; a code point beyond ASCII is kept when it is printable and written
  \<^verbatim>\<open>\xNN\<close>, \<^verbatim>\<open>\uNNNN\<close> or \<^verbatim>\<open>\UNNNNNNNN\<close>, by its size, when it is not. Which code points
  beyond ASCII are printable is a table of the interpreter (its Unicode database, which
  grows from one version to the next): the argument \<open>pr\<close>. A surrogate is printable in no
  version.
\<close>

definition quote_of :: "string \<Rightarrow> char" where
  "quote_of s = (if CHR 0x27 \<in> set s \<and> CHR 0x22 \<notin> set s then CHR 0x22 else CHR 0x27)"

definition hex_digit :: "nat \<Rightarrow> nat \<Rightarrow> char" where
  "hex_digit c k = hex_lower ! (c div 16 ^ k mod 16)"

definition escape :: "nat \<Rightarrow> string" where
  "escape c =
     (if c < 0x100 then [CHR 0x5C, CHR ''x''] @ map (hex_digit c) [1, 0]
      else if c < 0x10000 then [CHR 0x5C, CHR ''u''] @ map (hex_digit c) [3, 2, 1, 0]
      else [CHR 0x5C, CHR ''U''] @ map (hex_digit c) [7, 6, 5, 4, 3, 2, 1, 0])"

definition repr_char :: "(nat \<Rightarrow> bool) \<Rightarrow> char \<Rightarrow> nat option \<times> string \<Rightarrow> string" where
  "repr_char pr q e =
     (case fst e of
        None \<Rightarrow> escape (of_char (hd (snd e)))
      | Some c \<Rightarrow>
          if c = of_char q \<or> c = 0x5C then CHR 0x5C # snd e
          else if c = 0x09 then [CHR 0x5C, CHR ''t'']
          else if c = 0x0A then [CHR 0x5C, CHR ''n'']
          else if c = 0x0D then [CHR 0x5C, CHR ''r'']
          else if c < 0x20 \<or> c = 0x7F then escape c
          else if c < 0x7F then snd e
          else if \<not> surrogate c \<and> pr c then snd e
          else escape c)"

definition repr_str :: "(nat \<Rightarrow> bool) \<Rightarrow> string \<Rightarrow> string" where
  "repr_str pr s =
     (let q = quote_of s in [q] @ concat (map (repr_char pr q) (code_points s)) @ [q])"

fun py_repr :: "(nat \<Rightarrow> bool) \<Rightarrow> pyval \<Rightarrow> string" where
  "py_repr pr PNone = ''None''"
| "py_repr pr (PBool b) = (if b then ''True'' else ''False'')"
| "py_repr pr (PInt i) = str_int i"
| "py_repr pr (PStr s) = repr_str pr s"
| "py_repr pr (PList xs) = ''['' @ join '', '' (map (py_repr pr) xs) @ '']''"
| "py_repr pr (PDict kvs) =
     ''{'' @ join '', '' (map (\<lambda>kv. repr_str pr (fst kv) @ '': '' @ py_repr pr (snd kv)) kvs)
     @ ''}''"

fun py_str :: "(nat \<Rightarrow> bool) \<Rightarrow> pyval \<Rightarrow> string" where
  "py_str pr (PStr s) = s"
| "py_str pr v = py_repr pr v"

section \<open>The keyboard serializers\<close>

text \<open>
  \<^verbatim>\<open>InlineKeyboard.__str__\<close>: the two nested \<^verbatim>\<open>for\<close> loops append to \<^verbatim>\<open>result\<close>; each
  loop is a recursion over its list with \<^verbatim>\<open>result\<close> as the accumulator. After the loops
  \<^verbatim>\<open>result[:-1]\<close> drops the last character (nothing, for the empty string).
\<close>

fun inline_buttons :: "string \<Rightarrow> string list \<Rightarrow> string" where
  "inline_buttons result [] = result"
| \<open>inline_buttons result (button # row) =
     inline_buttons
       (result @ (''{"text":"'' @ button @ ''","callback_data":"'' @ button @ ''"}'')) row\<close>

fun inline_rows :: "string \<Rightarrow> string list list \<Rightarrow> string" where
  "inline_rows result [] = result"
| "inline_rows result (row # rows) =
     inline_rows (inline_buttons (result @ ''['') row @ ''],'') rows"

definition InlineKeyboard_str :: "string list list \<Rightarrow> string" where
  \<open>InlineKeyboard_str inlineButtons =
     butlast (inline_rows ''{"inline_keyboard":['' inlineButtons) @ '']}''\<close>

text \<open>\<^verbatim>\<open>ReplyKeyboard.__str__\<close>, in the same way.\<close>

fun reply_buttons :: "string \<Rightarrow> string list \<Rightarrow> string" where
  "reply_buttons result [] = result"
| \<open>reply_buttons result (button # row) =
     reply_buttons (result @ (''"'' @ button @ ''"'')) row\<close>

fun reply_rows :: "string \<Rightarrow> string list list \<Rightarrow> string" where
  "reply_rows result [] = result"
| "reply_rows result (row # rows) =
     reply_rows (reply_buttons (result @ ''['') row @ ''],'') rows"

definition ReplyKeyboard_str :: "string list list \<Rightarrow> string" where
  \<open>ReplyKeyboard_str keyboardButtons =
     (butlast (reply_rows ''{"keyboard":['' keyboardButtons) @ '']'')
       @ '',"resize_keyboard":true,"one_time_keyboard":true}''\<close>

text \<open>The two keyboard classes; the constructor only stores the grid.\<close>

datatype keyboard = InlineKeyboard "string list list" | ReplyKeyboard "string list list"

fun keyboard_str :: "keyboard \<Rightarrow> string" where
  "keyboard_str (InlineKeyboard g) = InlineKeyboard_str g"
| "keyboard_str (ReplyKeyboard g) = ReplyKeyboard_str g"

section \<open>The form encoding of a request\<close>

text \<open>
  A form field's value is any object; \<^verbatim>\<open>urlencode\<close> applies \<^verbatim>\<open>str\<close> to it, which for a
  keyboard is its \<^verbatim>\<open>__str__\<close>.
\<close>

datatype arg = Val pyval | Keyboard keyboard

fun str_arg :: "(nat \<Rightarrow> bool) \<Rightarrow> arg \<Rightarrow> string" where
  "str_arg pr (Val v) = py_str pr v"
| "str_arg pr (Keyboard k) = keyboard_str k"

text \<open>
  \<^verbatim>\<open>urllib.parse.quote_plus\<close> encodes the text as UTF-8, which raises UnicodeEncodeError
  for a text that holds a surrogate, and then goes byte by byte: letters, digits and
  \<^verbatim>\<open>_.-~\<close> stay, the space becomes \<^verbatim>\<open>+\<close>, every other byte becomes \<^verbatim>\<open>%XX\<close>.
  \<^verbatim>\<open>urlencode\<close> quotes the key and the value of each pair in turn and joins the
  \<^verbatim>\<open>key=value\<close> pairs with \<^verbatim>\<open>&\<close>.
\<close>

definition always_safe :: "char \<Rightarrow> bool" where
  "always_safe c \<longleftrightarrow>
     c \<in> set ''ABCDEFGHIJKLMNOPQRSTUVWXYZabcdefghijklmnopqrstuvwxyz0123456789_.-~''"

definition quote_plus_char :: "char \<Rightarrow> string" where
  "quote_plus_char c =
     (if always_safe c then [c]
      else if c = CHR '' '' then ''+''
      else [CHR ''%'', hex_upper ! (of_char c div 16), hex_upper ! (of_char c mod 16)])"

definition quote_from_bytes :: "string \<Rightarrow> string" where
  "quote_from_bytes bs = concat (map quote_plus_char bs)"

definition quote_plus :: "string \<Rightarrow> exn + string" where
  "quote_plus s =
     (case encode_utf8 s of Inl e \<Rightarrow> Inl e | Inr bs \<Rightarrow> Inr (quote_from_bytes bs))"

fun quote_pairs :: "(nat \<Rightarrow> bool) \<Rightarrow> (string \<times> arg) list \<Rightarrow> exn + string list" where
  "quote_pairs pr [] = Inr []"
| "quote_pairs pr (kv # query) =
     (case quote_plus (fst kv) of
        Inl e \<Rightarrow> Inl e
      | Inr k \<Rightarrow>
          (case quote_plus (str_arg pr (snd kv)) of
             Inl e \<Rightarrow> Inl e
           | Inr v \<Rightarrow>
               (case quote_pairs pr query of
                  Inl e \<Rightarrow> Inl e
                | Inr l \<Rightarrow> Inr ((k @ ''='' @ v) # l))))"

definition urlencode :: "(nat \<Rightarrow> bool) \<Rightarrow> (string \<times> arg) list \<Rightarrow> exn + string" where
  "urlencode pr query =
     (case quote_pairs pr query of Inl e \<Rightarrow> Inl e | Inr l \<Rightarrow> Inr (join ''&'' l))"

section \<open>The bot and the world around it\<close>

text \<open>
  The fields of a \<^verbatim>\<open>TelegramBot\<close>. \<^verbatim>\<open>LOGFILEPATH\<close> is \<open>None\<close> for the constructor's
  default 0 and \<open>Some p\<close> for a path; both 0 and the empty path are false in a condition.
\<close>

record TelegramBot =
  URL :: string
  TIMEOUT :: int
  ADMINCHATID :: int
  LOGFILEPATH :: "string option"
  offset :: int

definition init :: "string \<Rightarrow> int \<Rightarrow> int \<Rightarrow> string option \<Rightarrow> TelegramBot" where
  "init TOKEN timeout adminchatid logfilepath =
     \<lparr> URL = ''https://api.telegram.org/bot'' @ TOKEN @ ''/'',
       TIMEOUT = timeout,
       ADMINCHATID = adminchatid,
       LOGFILEPATH = logfilepath,
       offset = 0 \<rparr>"

definition log_configured :: "TelegramBot \<Rightarrow> bool" where
  "log_configured self = (case LOGFILEPATH self of None \<Rightarrow> False | Some p \<Rightarrow> p \<noteq> [])"

text \<open>
  What the \<^verbatim>\<open>try\<close> block of \<^verbatim>\<open>sendRequest\<close> (urlopen, read, decode, strip newlines,
  loads) comes to is the environment's answer to a request: it raises an exception of
  class \<^verbatim>\<open>Exception\<close>, which the \<^verbatim>\<open>except\<close> clause catches, or it is interrupted by an
  exception that is not of that class (the user's Ctrl-C while the request waits, an
  exit), or it yields the parsed response. \<^verbatim>\<open>errorHandler\<close> tells an exception whose
  type is exactly HTTPError from any other exception. Of an HTTPError it uses the \<^verbatim>\<open>filename\<close> (the URL of the
  request) and what \<^verbatim>\<open>error.read()\<close> comes to: the bytes of the body, or an exception when
  the connection breaks while the body is read. Of any other exception it uses the
  \<^verbatim>\<open>str\<close>, and it prints the frame that caught it and that frame's local variables. The
  strings the interpreter prints for the frame and for opaque objects (addresses, file
  names, line numbers) come with the exception, as its traceback.
\<close>

record traceback =
  frame_str :: string
  self_repr :: string
  newRequest_repr :: string
  connection_repr :: "string option"
  error_repr :: string

datatype error = HTTPError string "exn + string" | Exception string

datatype outcome = Raises error traceback | Interrupted interrupt | Returns pyval

record request =
  url :: string
  body :: string

text \<open>
  The world: \<open>net\<close> answers the requests to come, in order; \<open>requests\<close> lists the requests
  issued so far; \<open>clock\<close> holds what the calls of \<^verbatim>\<open>asctime()\<close> to come return; \<open>files\<close> is
  the content of each file that exists; \<open>open_raises\<close> tells for each path what
  \<^verbatim>\<open>open(path, "a", encoding = "utf-8")\<close> raises, if anything (a missing directory, no
  permission, a directory, a path that is no file name); \<open>isprintable\<close> is the
  interpreter's table of the printable code points beyond ASCII.
\<close>

record world =
  net :: "nat \<Rightarrow> outcome"
  requests :: "request list"
  clock :: "nat \<Rightarrow> string"
  files :: "string \<Rightarrow> string option"
  open_raises :: "string \<Rightarrow> exn option"
  isprintable :: "nat \<Rightarrow> bool"

text \<open>The world after a request has been issued and answered.\<close>

definition issue :: "world \<Rightarrow> request \<Rightarrow> world" where
  "issue w r = w\<lparr>net := (\<lambda>i. net w (Suc i)), requests := requests w @ [r]\<rparr>"

text \<open>
  The world after text has been appended to a file, which exists from then on, and the
  world after a call of \<^verbatim>\<open>asctime()\<close>.
\<close>

definition append_file :: "world \<Rightarrow> string \<Rightarrow> string \<Rightarrow> world" where
  "append_file w path s =
     w\<lparr>files := (files w)(path \<mapsto> (case files w path of None \<Rightarrow> [] | Some c \<Rightarrow> c) @ s)\<rparr>"

definition tick :: "world \<Rightarrow> world" where
  "tick w = w\<lparr>clock := (\<lambda>i. clock w (Suc i))\<rparr>"

text \<open>
  A call returns a value or raises, and leaves a bot and a world; \<open>None\<close> is a call that has
  not returned within the given depth of nested \<^verbatim>\<open>sendRequest\<close> calls. A call that is
  \<open>None\<close> at every depth does not return; the interpreter ends such a recursion at its own
  limit.
\<close>

type_synonym ret = "((exn + pyval) \<times> TelegramBot \<times> world) option"

definition seq :: "ret \<Rightarrow> (pyval \<Rightarrow> TelegramBot \<Rightarrow> world \<Rightarrow> ret) \<Rightarrow> ret" where
  "seq m k =
     (case m of
        None \<Rightarrow> None
      | Some (Inl e, self, w) \<Rightarrow> Some (Inl e, self, w)
      | Some (Inr v, self, w) \<Rightarrow> k v self w)"

text \<open>
  \<^verbatim>\<open>writeLog\<close>: the file is opened for appending, which raises when the path cannot be
  opened and creates the file when it is missing. Then the line is built, which calls
  \<^verbatim>\<open>asctime()\<close> and then concatenates \<^verbatim>\<open>msg\<close>: a \<^verbatim>\<open>msg\<close> that is not a string raises
  TypeError there, with the file open and nothing written. \<^verbatim>\<open>writelines\<close> writes the
  line character by character (line ends as they are, as on a POSIX system): a character
  that cannot be encoded raises UnicodeEncodeError, with the characters before it
  written. Leaving the \<^verbatim>\<open>with\<close> block closes the file either way. \<^verbatim>\<open>writeLog\<close> is called
  under \<^verbatim>\<open>if self.LOGFILEPATH:\<close> only; the constructor's default 0 is no path, and opening
  it is reported as OSError.
\<close>

definition log_line :: "string \<Rightarrow> string \<Rightarrow> string" where
  "log_line now m = replicate 10 CHR ''-'' @ ''\<newline>'' @ now @ ''\<newline>'' @ m @ ''\<newline>''"

definition writeLog :: "TelegramBot \<Rightarrow> world \<Rightarrow> pyval \<Rightarrow> (exn + pyval) \<times> TelegramBot \<times> world" where
  "writeLog self w msg =
     (case LOGFILEPATH self of
        None \<Rightarrow> (Inl OSError, self, w)
      | Some path \<Rightarrow>
          (case open_raises w path of
             Some e \<Rightarrow> (Inl e, self, w)
           | None \<Rightarrow>
               (let w1 = append_file w path [];
                    now = clock w1 0;
                    w2 = tick w1
                in case msg of
                     PStr m \<Rightarrow>
                       if valid_utf8 (log_line now m)
                       then (Inr PNone, self, append_file w2 path (log_line now m))
                       else (Inl UnicodeEncodeError, self,
                             append_file w2 path (encodable_prefix (log_line now m)))
                   | _ \<Rightarrow> (Inl TypeError, self, w2))))"

text \<open>
  The local variables of the \<^verbatim>\<open>sendRequest\<close> frame while its \<^verbatim>\<open>except\<close> clause runs, as
  \<^verbatim>\<open>f_locals\<close> lists them (name and \<^verbatim>\<open>repr\<close>): \<^verbatim>\<open>data\<close> is by then the encoded body, a bytes
  object of printable ASCII without quotes; \<^verbatim>\<open>connection\<close> is bound only if urlopen had
  returned; \<^verbatim>\<open>response\<close> is not bound.
\<close>

definition bytes_repr :: "string \<Rightarrow> string" where
  "bytes_repr bs = ''b'' @ [CHR 0x27] @ bs @ [CHR 0x27]"

definition f_locals ::
  "(nat \<Rightarrow> bool) \<Rightarrow> string \<Rightarrow> string \<Rightarrow> traceback \<Rightarrow> (string \<times> string) list" where
  "f_locals pr method data tb =
     [(''self'', self_repr tb), (''method'', repr_str pr method), (''data'', bytes_repr data),
      (''newRequest'', newRequest_repr tb)]
     @ (case connection_repr tb of None \<Rightarrow> [] | Some c \<Rightarrow> [(''connection'', c)])
     @ [(''error'', error_repr tb)]"

text \<open>\<^verbatim>\<open>tb.pop(k, None)\<close> and \<^verbatim>\<open>str(tb)\<close> on that dictionary of names and reprs.\<close>

definition pop :: "string \<Rightarrow> (string \<times> string) list \<Rightarrow> (string \<times> string) list" where
  "pop k d = filter (\<lambda>kv. fst kv \<noteq> k) d"

definition dict_str :: "(nat \<Rightarrow> bool) \<Rightarrow> (string \<times> string) list \<Rightarrow> string" where
  "dict_str pr d =
     ''{'' @ join '', '' (map (\<lambda>kv. repr_str pr (fst kv) @ '': '' @ snd kv) d) @ ''}''"

section \<open>The transport, the error handler and the facade\<close>

text \<open>
  \<^verbatim>\<open>sendRequest\<close>, \<^verbatim>\<open>errorHandler\<close>, \<^verbatim>\<open>sendMsgToAdmin\<close> and \<^verbatim>\<open>sendMsg\<close> call each other:
  a failed request is reported through \<^verbatim>\<open>sendMsgToAdmin\<close>, which is a request again. The
  first argument bounds the depth of nested \<^verbatim>\<open>sendRequest\<close> calls. \<^verbatim>\<open>sendRequest\<close>
  encodes the form data before its \<^verbatim>\<open>try\<close> block, so an exception of \<^verbatim>\<open>urlencode\<close> goes
  to the caller; building the \<^verbatim>\<open>Request\<close> object does not raise for a URL that starts
  with \<^verbatim>\<open>https://\<close>. \<^verbatim>\<open>errorHandler\<close> receives, with the exception, the frame its
  traceback points to: the frame's printed form and its locals. The two statements that
  end every failure path of the source,
  \<^verbatim>\<open>if self.ADMINCHATID: self.sendMsgToAdmin(msg)\<close> and
  \<^verbatim>\<open>if self.LOGFILEPATH: self.writeLog(msg)\<close>, are \<open>report\<close>; both paths return None.
\<close>

definition report ::
  "(TelegramBot \<Rightarrow> world \<Rightarrow> pyval \<Rightarrow> ret) \<Rightarrow> TelegramBot \<Rightarrow> world \<Rightarrow> pyval \<Rightarrow> ret" where
  "report toAdmin self w msg =
     seq (if ADMINCHATID self \<noteq> 0 then toAdmin self w msg else Some (Inr PNone, self, w))
       (\<lambda>_ self w.
          seq (if log_configured self then Some (writeLog self w msg)
               else Some (Inr PNone, self, w))
            (\<lambda>_ self w. Some (Inr PNone, self, w)))"

function sendRequest :: "nat \<Rightarrow> TelegramBot \<Rightarrow> world \<Rightarrow> string \<Rightarrow> (string \<times> arg) list \<Rightarrow> ret"
and sendMsg :: "nat \<Rightarrow> TelegramBot \<Rightarrow> world \<Rightarrow> int \<Rightarrow> pyval \<Rightarrow> ret"
and sendMsgToAdmin :: "nat \<Rightarrow> TelegramBot \<Rightarrow> world \<Rightarrow> pyval \<Rightarrow> ret"
and errorHandler ::
  "nat \<Rightarrow> TelegramBot \<Rightarrow> world \<Rightarrow> error \<Rightarrow> string \<Rightarrow> (string \<times> string) list \<Rightarrow> ret"
where
  "sendRequest 0 self w method data = None"
| "sendRequest (Suc n) self w method data =
     (case urlencode (isprintable w) data of
        Inl e \<Rightarrow> Some (Inl e, self, w)
      | Inr data \<Rightarrow>
          (let newRequest = \<lparr>url = URL self @ method, body = data\<rparr>;
               w1 = issue w newRequest
           in case net w 0 of
                Raises error tb \<Rightarrow>
                  seq (errorHandler n self w1 error (frame_str tb)
                         (f_locals (isprintable w) method data tb))
                      (\<lambda>_ self w. Some (Inr PNone, self, w))
              | Interrupted i \<Rightarrow> Some (Inl (Interrupt i), self, w1)
              | Returns response \<Rightarrow>
                  (case getitem response ''ok'' of
                     Inl e \<Rightarrow> Some (Inl e, self, w1)
                   | Inr ok \<Rightarrow>
                       if \<not> truthy ok then report (sendMsgToAdmin n) self w1 response
                       else
                         (case getitem response ''result'' of
                            Inl e \<Rightarrow> Some (Inl e, self, w1)
                          | Inr result \<Rightarrow> Some (Inr result, self, w1)))))"
| "sendMsg n self w chatID text =
     sendRequest n self w ''sendMessage'' [(''chat_id'', Val (PInt chatID)), (''text'', Val text)]"
| "sendMsgToAdmin n self w msg = sendMsg n self w (ADMINCHATID self) msg"
| "errorHandler n self w error frame locals =
     (case error of
        HTTPError filename read \<Rightarrow>
          (case read of
             Inl e \<Rightarrow> Some (Inl e, self, w)
           | Inr bytes \<Rightarrow>
               (case decode_utf8 bytes of
                  Inl e \<Rightarrow> Some (Inl e, self, w)
                | Inr content \<Rightarrow>
                    report (sendMsgToAdmin n) self w (PStr (filename @ ''\<newline>'' @ content))))
      | Exception error_str \<Rightarrow>
          (let tb = locals;
               tb = pop ''chatID'' tb;
               tb = pop ''text'' tb;
               tb = pop ''keyboard'' tb;
               tb = pop ''url'' tb
           in report (sendMsgToAdmin n) self w
                (PStr (error_str @ ''\<newline>'' @ frame @ ''\<newline>'' @ dict_str (isprintable w) tb))))"
  by pat_completeness auto
termination
  apply (relation "measure (\<lambda>x. case x of
      Inl (Inl (n, _)) \<Rightarrow> 4 * n
    | Inl (Inr (n, _)) \<Rightarrow> 4 * n + 1
    | Inr (Inl (n, _)) \<Rightarrow> 4 * n + 2
    | Inr (Inr (n, _)) \<Rightarrow> 4 * n + 3)")
  apply simp_all
  done

text \<open>The remaining operations of the facade.\<close>

definition sendKeyboard :: "nat \<Rightarrow> TelegramBot \<Rightarrow> world \<Rightarrow> int \<Rightarrow> pyval \<Rightarrow> arg \<Rightarrow> ret" where
  "sendKeyboard n self w chatID text keyboard =
     sendRequest n self w ''sendMessage''
       [(''chat_id'', Val (PInt chatID)), (''text'', Val text), (''reply_markup'', keyboard)]"

definition deletMessage :: "nat \<Rightarrow> TelegramBot \<Rightarrow> world \<Rightarrow> int \<Rightarrow> int \<Rightarrow> ret" where
  "deletMessage n self w chatID message_id =
     sendRequest n self w ''deleteMessage''
       [(''chat_id'', Val (PInt chatID)), (''message_id'', Val (PInt message_id))]"

definition getUpdate :: "nat \<Rightarrow> TelegramBot \<Rightarrow> world \<Rightarrow> ret" where
  "getUpdate n self w =
     (let data = [(''offset'', Val (PInt (offset self))), (''limit'', Val (PInt 1)),
                  (''timeout'', Val (PInt (TIMEOUT self)))]
      in seq (sendRequest n self w ''getUpdates'' data)
           (\<lambda>response self w.
              if truthy response then
                (case getitem0 response of
                   Inl e \<Rightarrow> Some (Inl e, self, w)
                 | Inr update \<Rightarrow>
                     (case getitem update ''update_id'' of
                        Inl e \<Rightarrow> Some (Inl e, self, w)
                      | Inr i \<Rightarrow>
                          (case add1 i of
                             Inl e \<Rightarrow> Some (Inl e, self, w)
                           | Inr new \<Rightarrow> Some (Inr response, self\<lparr>offset := new\<rparr>, w))))
              else Some (Inr response, self, w)))"

section \<open>Sequences of calls\<close>

text \<open>
  A caller of the facade makes one call after another on the same bot. \<open>run\<close> records, for
  every call that returned or raised, the bot before it, what came back, and the bot and
  the world after it; it stops at a call that raises or does not return.
\<close>

datatype op =
    GetUpdate
  | SendMsg int pyval
  | SendKeyboard int pyval arg
  | SendMsgToAdmin pyval
  | DeletMessage int int

fun call :: "nat \<Rightarrow> TelegramBot \<Rightarrow> world \<Rightarrow> op \<Rightarrow> ret" where
  "call n self w GetUpdate = getUpdate n self w"
| "call n self w (SendMsg chatID text) = sendMsg n self w chatID text"
| "call n self w (SendKeyboard chatID text keyboard) = sendKeyboard n self w chatID text keyboard"
| "call n self w (SendMsgToAdmin msg) = sendMsgToAdmin n self w msg"
| "call n self w (DeletMessage chatID message_id) = deletMessage n self w chatID message_id"

record step =
  s_op :: op
  s_before :: TelegramBot
  s_result :: "exn + pyval"
  s_after :: TelegramBot
  s_world :: world

fun run :: "nat \<Rightarrow> TelegramBot \<Rightarrow> world \<Rightarrow> op list \<Rightarrow> step list" where
  "run n self w [] = []"
| "run n self w (x # xs) =
     (case call n self w x of
        None \<Rightarrow> []
      | Some (r, self', w') \<Rightarrow>
          \<lparr>s_op = x, s_before = self, s_result = r, s_after = self', s_world = w'\<rparr>
          # (case r of Inl e \<Rightarrow> [] | Inr v \<Rightarrow> run n self' w' xs))"

text \<open>
  The request \<^verbatim>\<open>getUpdate\<close> issues for a bot: the fields \<^verbatim>\<open>offset\<close>, \<^verbatim>\<open>limit\<close> and
  \<^verbatim>\<open>timeout\<close> of its \<^verbatim>\<open>data\<close> list, encoded.
\<close>

definition poll_request :: "TelegramBot \<Rightarrow> request" where
  "poll_request self =
     \<lparr>url = URL self @ ''getUpdates'',
      body = ''offset='' @ str_int (offset self) @ ''&limit=1&timeout='' @ str_int (TIMEOUT self)\<rparr>"

text \<open>
  A successful poll: the response has a true \<^verbatim>\<open>ok\<close> and a \<^verbatim>\<open>result\<close>, which is either empty
  (\<open>None\<close>) or starts with an update whose \<^verbatim>\<open>update_id\<close> is the integer \<open>i\<close> (\<open>Some i\<close>).
\<close>

definition successful_poll :: "outcome \<Rightarrow> int option \<Rightarrow> bool" where
  "successful_poll out uid =
     (case out of
        Raises error tb \<Rightarrow> False
      | Interrupted i \<Rightarrow> False
      | Returns response \<Rightarrow>
          (case getitem response ''ok'' of
             Inl e \<Rightarrow> False
           | Inr ok \<Rightarrow>
               truthy ok \<and>
               (case getitem response ''result'' of
                  Inl e \<Rightarrow> False
                | Inr res \<Rightarrow>
                    (case uid of
                       None \<Rightarrow> \<not> truthy res
                     | Some i \<Rightarrow>
                         truthy res \<and>
                         (case getitem0 res of
                            Inl e \<Rightarrow> False
                          | Inr u \<Rightarrow> getitem u ''update_id'' = Inr (PInt i))))))"

text \<open>
  The cursor after each of a sequence of successful polls, as the specification has it:
  one more than the update id just returned, unchanged by an empty poll.
\<close>

fun cursors :: "int \<Rightarrow> int option list \<Rightarrow> int list" where
  "cursors c [] = []"
| "cursors c (None # us) = c # cursors c us"
| "cursors c (Some i # us) = (i + 1) # cursors (i + 1) us"

text \<open>
  The update id a call returned: that of the first update of a non-empty result of
  \<^verbatim>\<open>getUpdate\<close>, as an integer (a boolean counts as 0 or 1, as in Python).
\<close>

fun int_value :: "pyval \<Rightarrow> int option" where
  "int_value (PInt i) = Some i"
| "int_value (PBool b) = Some (if b then 1 else 0)"
| "int_value v = None"

definition returned_id :: "step \<Rightarrow> int option" where
  "returned_id s =
     (case (s_op s, s_result s) of
        (GetUpdate, Inr res) \<Rightarrow>
          if truthy res then
            (case getitem0 res of
               Inl e \<Rightarrow> None
             | Inr u \<Rightarrow> (case getitem u ''update_id'' of Inl e \<Rightarrow> None | Inr v \<Rightarrow> int_value v))
          else None
      | _ \<Rightarrow> None)"

definition returned_ids :: "step list \<Rightarrow> int list" where
  "returned_ids t = List.map_filter returned_id t"

text \<open>The server honours the offset: an update it returns has an id not below the offset asked for.\<close>

definition honours_offset :: "step \<Rightarrow> bool" where
  "honours_offset s = (case returned_id s of None \<Rightarrow> True | Some i \<Rightarrow> offset (s_before s) \<le> i)"

section \<open>Outcomes of a request, as the claims speak of them\<close>

text \<open>A request succeeds when its response has a true \<^verbatim>\<open>ok\<close> and a \<^verbatim>\<open>result\<close>.\<close>

definition succeeds :: "outcome \<Rightarrow> bool" where
  "succeeds out =
     (case out of
        Raises error tb \<Rightarrow> False
      | Interrupted i \<Rightarrow> False
      | Returns response \<Rightarrow>
          (case getitem response ''ok'' of
             Inl e \<Rightarrow> False
           | Inr ok \<Rightarrow>
               truthy ok \<and> (case getitem response ''result'' of Inl e \<Rightarrow> False | Inr r \<Rightarrow> True)))"

text \<open>
  The message \<^verbatim>\<open>errorHandler\<close> builds from an exception, the printed frame and the frame's
  locals, or the exception it raises while building it (the body of an HTTP error that
  cannot be read or is not UTF-8).
\<close>

definition handler_msg ::
  "(nat \<Rightarrow> bool) \<Rightarrow> error \<Rightarrow> string \<Rightarrow> (string \<times> string) list \<Rightarrow> exn + string" where
  "handler_msg pr error frame locals =
     (case error of
        HTTPError filename read \<Rightarrow>
          (case read of
             Inl e \<Rightarrow> Inl e
           | Inr bytes \<Rightarrow>
               (case decode_utf8 bytes of
                  Inl e \<Rightarrow> Inl e
                | Inr content \<Rightarrow> Inr (filename @ ''\<newline>'' @ content)))
      | Exception error_str \<Rightarrow>
          Inr (error_str @ ''\<newline>'' @ frame @ ''\<newline>'' @
               dict_str pr (pop ''url'' (pop ''keyboard'' (pop ''text'' (pop ''chatID'' locals))))))"

text \<open>
  A request (its \<^verbatim>\<open>method\<close>, its encoded \<^verbatim>\<open>data\<close>) has failed when the \<^verbatim>\<open>try\<close> block raised
  an exception that the \<^verbatim>\<open>except\<close> clause catches or the response has an \<^verbatim>\<open>ok\<close> that is
  false. The diagnostic of the failure is what is
  then reported: the message of \<^verbatim>\<open>errorHandler\<close>, or the envelope itself. There is none
  when the request has not failed, and none when \<^verbatim>\<open>errorHandler\<close> raises before it has a
  message.
\<close>

definition diagnostic :: "(nat \<Rightarrow> bool) \<Rightarrow> outcome \<Rightarrow> string \<Rightarrow> string \<Rightarrow> pyval option" where
  "diagnostic pr out meth data =
     (case out of
        Raises error tb \<Rightarrow>
          (case handler_msg pr error (frame_str tb) (f_locals pr meth data tb) of
             Inl e \<Rightarrow> None
           | Inr m \<Rightarrow> Some (PStr m))
      | Interrupted i \<Rightarrow> None
      | Returns response \<Rightarrow>
          (case getitem response ''ok'' of
             Inl e \<Rightarrow> None
           | Inr ok \<Rightarrow> if truthy ok then None else Some response))"




text \<open>The world after requests have been issued, and after messages have been logged, in turn.\<close>

fun issued :: "world \<Rightarrow> request list \<Rightarrow> world" where
  "issued w [] = w"
| "issued w (r # rs) = issued (issue w r) rs"


text \<open>The string a Python value is, if it is one.\<close>

fun str_of :: "pyval \<Rightarrow> string option" where
  "str_of (PStr s) = Some s"
| "str_of v = None"

text \<open>ASCII text, and printable ASCII text without a quote or a backslash.\<close>

definition ascii :: "string \<Rightarrow> bool" where
  "ascii s = list_all (\<lambda>c. (of_char c :: nat) < 0x80) s"


section \<open>JSON texts\<close>

text \<open>
  What the claims call valid JSON is the grammar of RFC 8259, here as a lexer and a
  pushdown recogniser that builds the value. A text is valid when \<open>json_loads\<close> returns a
  value. Strings are byte strings, as everywhere in this theory; an escape \<^verbatim>\<open>\uXXXX\<close> is
  decoded to the UTF-8 bytes of that code unit (surrogate pairs are not joined), and a
  number keeps its lexeme.
\<close>

datatype json =
    JNull
  | JBool bool
  | JNumber string
  | JString string
  | JArray "json list"
  | JObject "(string \<times> json) list"

datatype token =
    LBrace | RBrace | LBracket | RBracket | Colon | Comma
  | TString string | TNumber string | TTrue | TFalse | TNull

definition is_ws :: "char \<Rightarrow> bool" where
  "is_ws c \<longleftrightarrow> c = CHR '' '' \<or> c = CHR 0x09 \<or> c = CHR 0x0A \<or> c = CHR 0x0D"

definition is_digit :: "char \<Rightarrow> bool" where
  "is_digit c \<longleftrightarrow> c \<in> set ''0123456789''"

definition hexval :: "char \<Rightarrow> nat option" where
  "hexval c =
     (if c \<in> set ''0123456789'' then Some (of_char c - 48)
      else if c \<in> set ''abcdef'' then Some (of_char c - 87)
      else if c \<in> set ''ABCDEF'' then Some (of_char c - 55)
      else None)"

definition utf8 :: "nat \<Rightarrow> string" where
  "utf8 n =
     (if n < 128 then [char_of n]
      else if n < 2048 then [char_of (192 + n div 64), char_of (128 + n mod 64)]
      else [char_of (224 + n div 4096), char_of (128 + (n div 64) mod 64),
            char_of (128 + n mod 64)])"

text \<open>The character a two-character escape stands for.\<close>

definition unescape :: "char \<Rightarrow> char option" where
  "unescape e =
     (if e = CHR 0x22 \<or> e = CHR 0x5C \<or> e = CHR ''/'' then Some e
      else if e = CHR ''b'' then Some (CHR 0x08)
      else if e = CHR ''f'' then Some (CHR 0x0C)
      else if e = CHR ''n'' then Some (CHR 0x0A)
      else if e = CHR ''r'' then Some (CHR 0x0D)
      else if e = CHR ''t'' then Some (CHR 0x09)
      else None)"

text \<open>
  A string, read after its opening quote: its content and the text after its closing
  quote. A raw control character is not allowed.
\<close>

fun lex_string :: "string \<Rightarrow> (string \<times> string) option" where
  "lex_string [] = None"
| "lex_string (c # cs) =
     (if c = CHR 0x22 then Some ([], cs)
      else if c = CHR 0x5C then
        (case cs of
           [] \<Rightarrow> None
         | e # cs1 \<Rightarrow>
             if e = CHR ''u'' then
               (case cs1 of
                  a # b # c # d # cs2 \<Rightarrow>
                    (case (hexval a, hexval b, hexval c, hexval d) of
                       (Some x, Some y, Some z, Some u) \<Rightarrow>
                         map_option (\<lambda>(s, r). (utf8 (((x * 16 + y) * 16 + z) * 16 + u) @ s, r))
                           (lex_string cs2)
                     | _ \<Rightarrow> None)
                | _ \<Rightarrow> None)
             else
               (case unescape e of
                  None \<Rightarrow> None
                | Some ch \<Rightarrow> map_option (\<lambda>(s, r). (ch # s, r)) (lex_string cs1)))
      else if (of_char c :: nat) < 32 then None
      else map_option (\<lambda>(s, r). (c # s, r)) (lex_string cs))"

text \<open>
  A number: an optional minus, 0 or a digit from 1 to 9 followed by digits, an optional
  fraction, an optional exponent. The result is the lexeme and the text after it.
\<close>

definition lex_int :: "string \<Rightarrow> (string \<times> string) option" where
  "lex_int s =
     (case s of
        [] \<Rightarrow> None
      | c # r \<Rightarrow>
          if c = CHR ''0'' then Some ([c], r)
          else if is_digit c then Some (c # takeWhile is_digit r, dropWhile is_digit r)
          else None)"

definition lex_frac :: "string \<Rightarrow> (string \<times> string) option" where
  "lex_frac s =
     (case s of
        [] \<Rightarrow> Some ([], s)
      | c # r \<Rightarrow>
          if c = CHR ''.'' then
            (if takeWhile is_digit r = [] then None
             else Some (c # takeWhile is_digit r, dropWhile is_digit r))
          else Some ([], s))"

definition lex_exp :: "string \<Rightarrow> (string \<times> string) option" where
  "lex_exp s =
     (case s of
        [] \<Rightarrow> Some ([], s)
      | c # r \<Rightarrow>
          if c = CHR ''e'' \<or> c = CHR ''E'' then
            (let sg = (case r of [] \<Rightarrow> [] | g # _ \<Rightarrow> if g = CHR ''+'' \<or> g = CHR ''-'' then [g] else []);
                 r1 = drop (length sg) r
             in if takeWhile is_digit r1 = [] then None
                else Some (c # sg @ takeWhile is_digit r1, dropWhile is_digit r1))
          else Some ([], s))"

definition lex_number :: "string \<Rightarrow> (string \<times> string) option" where
  "lex_number s =
     (let sg = (case s of [] \<Rightarrow> [] | c # _ \<Rightarrow> if c = CHR ''-'' then [c] else []) in
      case lex_int (drop (length sg) s) of
        None \<Rightarrow> None
      | Some (i, s1) \<Rightarrow>
          (case lex_frac s1 of
             None \<Rightarrow> None
           | Some (f, s2) \<Rightarrow>
               (case lex_exp s2 of
                  None \<Rightarrow> None
                | Some (e, s3) \<Rightarrow> Some (sg @ i @ f @ e, s3))))"

lemma lex_string_shorter: "lex_string cs = Some (s, r) \<Longrightarrow> length r < length cs"
proof (induction "length cs" arbitrary: cs s r rule: less_induct)
  case less
  show ?case
  proof (cases cs)
    case Nil
    with less.prems show ?thesis by simp
  next
    case (Cons c cs')
    from less.prems show ?thesis
      unfolding Cons
      by (auto split: if_splits list.splits option.splits prod.splits
               dest!: less.hyps [unfolded Cons, rotated])
  qed
qed

lemma lex_int_shorter: "lex_int cs = Some (s, r) \<Longrightarrow> length r < length cs"
  using length_dropWhile_le [of is_digit]
  by (auto simp: lex_int_def less_Suc_eq_le split: list.splits if_splits)

lemma lex_frac_shorter: "lex_frac cs = Some (s, r) \<Longrightarrow> length r \<le> length cs"
  using length_dropWhile_le [of is_digit]
  by (auto simp: lex_frac_def le_SucI split: list.splits if_splits)

lemma lex_exp_shorter: "lex_exp cs = Some (s, r) \<Longrightarrow> length r \<le> length cs"
proof (cases cs)
  case Nil
  assume "lex_exp cs = Some (s, r)"
  with Nil show ?thesis by (simp add: lex_exp_def)
next
  case (Cons c cs')
  assume a: "lex_exp cs = Some (s, r)"
  have "\<And>k. length (dropWhile is_digit (drop k cs')) \<le> length cs'"
    by (rule le_trans [OF length_dropWhile_le]) simp
  with a Cons show ?thesis
    by (auto simp: lex_exp_def Let_def le_SucI split: if_splits)
qed

lemma lex_number_shorter: "lex_number cs = Some (s, r) \<Longrightarrow> length r < length cs"
proof -
  assume a: "lex_number cs = Some (s, r)"
  define sg where "sg = (case cs of [] \<Rightarrow> [] | c # _ \<Rightarrow> if c = CHR ''-'' then [c] else [])"
  from a obtain i s1 f s2 e where
    i: "lex_int (drop (length sg) cs) = Some (i, s1)" and
    f: "lex_frac s1 = Some (f, s2)" and e: "lex_exp s2 = Some (e, r)"
    by (auto simp: lex_number_def Let_def sg_def split: option.splits prod.splits)
  from lex_int_shorter [OF i] have "length s1 < length cs" by simp
  with lex_frac_shorter [OF f] lex_exp_shorter [OF e] show ?thesis by simp
qed

function lex :: "string \<Rightarrow> token list option" where
  "lex [] = Some []"
| "lex (c # cs) =
     (if is_ws c then lex cs
      else if c = CHR ''{'' then map_option (Cons LBrace) (lex cs)
      else if c = CHR ''}'' then map_option (Cons RBrace) (lex cs)
      else if c = CHR ''['' then map_option (Cons LBracket) (lex cs)
      else if c = CHR '']'' then map_option (Cons RBracket) (lex cs)
      else if c = CHR '':'' then map_option (Cons Colon) (lex cs)
      else if c = CHR '','' then map_option (Cons Comma) (lex cs)
      else if c = CHR 0x22 then
        (case lex_string cs of
           None \<Rightarrow> None
         | Some (s, r) \<Rightarrow> map_option (Cons (TString s)) (lex r))
      else if c = CHR ''t'' then
        (if take 3 cs = ''rue'' then map_option (Cons TTrue) (lex (drop 3 cs)) else None)
      else if c = CHR ''f'' then
        (if take 4 cs = ''alse'' then map_option (Cons TFalse) (lex (drop 4 cs)) else None)
      else if c = CHR ''n'' then
        (if take 3 cs = ''ull'' then map_option (Cons TNull) (lex (drop 3 cs)) else None)
      else
        (case lex_number (c # cs) of
           None \<Rightarrow> None
         | Some (n, r) \<Rightarrow> map_option (Cons (TNumber n)) (lex r)))"
  by pat_completeness auto
termination
  apply (relation "measure length")
  apply (auto dest: lex_string_shorter lex_number_shorter)
  done

text \<open>
  The recogniser. Its stack holds the containers that are open: an array with the
  elements read so far, or an object with the members read so far and the key whose value
  is being read (both in reverse order).
\<close>

datatype frame = InArr "json list" | InObj "(string \<times> json) list" string

datatype pstate =
    ExpValue "frame list"
  | ArrOpen "frame list"
  | ObjOpen "frame list"
  | ExpKey "(string \<times> json) list" "frame list"
  | ExpColon "(string \<times> json) list" string "frame list"
  | Got json "frame list"

fun start_value :: "frame list \<Rightarrow> token \<Rightarrow> pstate option" where
  "start_value st (TString s) = Some (Got (JString s) st)"
| "start_value st (TNumber n) = Some (Got (JNumber n) st)"
| "start_value st TTrue = Some (Got (JBool True) st)"
| "start_value st TFalse = Some (Got (JBool False) st)"
| "start_value st TNull = Some (Got JNull st)"
| "start_value st LBracket = Some (ArrOpen st)"
| "start_value st LBrace = Some (ObjOpen st)"
| "start_value st t = None"

fun feed :: "pstate \<Rightarrow> token \<Rightarrow> pstate option" where
  "feed (ExpValue st) t = start_value st t"
| "feed (ArrOpen st) t = (if t = RBracket then Some (Got (JArray []) st) else start_value (InArr [] # st) t)"
| "feed (ObjOpen st) t =
     (case t of
        RBrace \<Rightarrow> Some (Got (JObject []) st)
      | TString k \<Rightarrow> Some (ExpColon [] k st)
      | _ \<Rightarrow> None)"
| "feed (ExpKey ms st) t = (case t of TString k \<Rightarrow> Some (ExpColon ms k st) | _ \<Rightarrow> None)"
| "feed (ExpColon ms k st) t = (if t = Colon then Some (ExpValue (InObj ms k # st)) else None)"
| "feed (Got v []) t = None"
| "feed (Got v (InArr acc # st)) t =
     (if t = Comma then Some (ExpValue (InArr (v # acc) # st))
      else if t = RBracket then Some (Got (JArray (rev (v # acc))) st)
      else None)"
| "feed (Got v (InObj ms k # st)) t =
     (if t = Comma then Some (ExpKey ((k, v) # ms) st)
      else if t = RBrace then Some (Got (JObject (rev ((k, v) # ms))) st)
      else None)"

fun feeds :: "pstate \<Rightarrow> token list \<Rightarrow> pstate option" where
  "feeds s [] = Some s"
| "feeds s (t # ts) = (case feed s t of None \<Rightarrow> None | Some s' \<Rightarrow> feeds s' ts)"

definition json_parse :: "token list \<Rightarrow> json option" where
  "json_parse ts = (case feeds (ExpValue []) ts of Some (Got v []) \<Rightarrow> Some v | _ \<Rightarrow> None)"

definition json_loads :: "string \<Rightarrow> json option" where
  "json_loads s = (case lex s of None \<Rightarrow> None | Some ts \<Rightarrow> json_parse ts)"

definition valid_json :: "string \<Rightarrow> bool" where
  "valid_json s \<longleftrightarrow> json_loads s \<noteq> None"

text \<open>
  A label that can stand between quotes as it is: no quote, no backslash, no control
  character. And the JSON values the keyboards are meant to denote.
\<close>

definition plain_label :: "string \<Rightarrow> bool" where
  "plain_label l = list_all (\<lambda>c. c \<noteq> CHR 0x22 \<and> c \<noteq> CHR 0x5C \<and> 32 \<le> (of_char c :: nat)) l"

definition inline_button_json :: "string \<Rightarrow> json" where
  "inline_button_json l = JObject [(''text'', JString l), (''callback_data'', JString l)]"

definition inline_keyboard_json :: "string list list \<Rightarrow> json" where
  "inline_keyboard_json g =
     JObject [(''inline_keyboard'', JArray (map (\<lambda>row. JArray (map inline_button_json row)) g))]"

definition reply_keyboard_json :: "string list list \<Rightarrow> json" where
  "reply_keyboard_json g =
     JObject [(''keyboard'', JArray (map (\<lambda>row. JArray (map JString row)) g)),
              (''resize_keyboard'', JBool True), (''one_time_keyboard'', JBool True)]"

text \<open>The tokens of a button and of a row of buttons, for each keyboard.\<close>

definition inline_button_toks :: "string \<Rightarrow> token list" where
  "inline_button_toks l =
     [LBrace, TString ''text'', Colon, TString l, Comma,
      TString ''callback_data'', Colon, TString l, RBrace]"

definition inline_row_toks :: "string list \<Rightarrow> token list" where
  "inline_row_toks row = LBracket # concat (map inline_button_toks row) @ [RBracket]"

definition reply_row_toks :: "string list \<Rightarrow> token list" where
  "reply_row_toks row = LBracket # map TString row @ [RBracket]"

text \<open>A grid the amended claims speak of: not empty, at most one button in a row, plain labels.\<close>

definition simple_grid :: "string list list \<Rightarrow> bool" where
  "simple_grid g \<longleftrightarrow> g \<noteq> [] \<and> list_all (\<lambda>row. length row \<le> 1 \<and> list_all plain_label row) g"

text \<open>What the loops of the serializers append for a button and for a row, in closed form.\<close>

definition inline_button_str :: "string \<Rightarrow> string" where
  \<open>inline_button_str b = ''{"text":"'' @ b @ ''","callback_data":"'' @ b @ ''"}''\<close>

definition inline_row_str :: "string list \<Rightarrow> string" where
  "inline_row_str row = ''['' @ concat (map inline_button_str row) @ '']''"

definition reply_button_str :: "string \<Rightarrow> string" where
  \<open>reply_button_str b = ''"'' @ b @ ''"''\<close>

definition reply_row_str :: "string list \<Rightarrow> string" where
  "reply_row_str row = ''['' @ concat (map reply_button_str row) @ '']''"

section \<open>Concrete bots and worlds\<close>

definition ok_response :: "pyval \<Rightarrow> pyval" where
  "ok_response result = PDict [(''ok'', PBool True), (''result'', result)]"

definition update :: "int \<Rightarrow> pyval" where
  "update i = PDict [(''update_id'', PInt i), (''message'', PDict [(''text'', PStr ''hi'')])]"

text \<open>A world that answers the first requests as listed and every later one with an empty result.\<close>

definition script :: "outcome list \<Rightarrow> nat \<Rightarrow> outcome" where
  "script os i = (if i < length os then os ! i else Returns (ok_response (PList [])))"

text \<open>
  No request issued yet, no file, every path one that can be opened, and a table of the
  printable code points that is right up to 0xFF; the texts of these worlds are ASCII.
\<close>

definition world0 :: "outcome list \<Rightarrow> world" where
  "world0 os =
     \<lparr>net = script os, requests = [], clock = (\<lambda>i. ''Wed Nov  4 01:09:00 2026''),
      files = Map.empty, open_raises = (\<lambda>path. None),
      isprintable = (\<lambda>c. 0xA1 \<le> c \<and> c \<le> 0xFF \<and> c \<noteq> 0xAD)\<rparr>"

definition tb0 :: traceback where
  "tb0 =
     \<lparr>frame_str = ''<frame at 0x7f00, file 'core.py', line 33, code sendRequest>'',
      self_repr = ''<core.TelegramBot object at 0x7f01>'',
      newRequest_repr = ''<urllib.request.Request object at 0x7f02>'',
      connection_repr = None,
      error_repr = ''URLError(gaierror(-2, 'Name or service not known'))''\<rparr>"

definition net_down :: outcome where
  "net_down = Raises (Exception ''<urlopen error [Errno -2] Name or service not known>'') tb0"


definition poll_world :: "int list \<Rightarrow> world" where
  "poll_world ids = world0 (map (\<lambda>i. Returns (ok_response (PList [update i]))) ids)"

definition bot0 :: TelegramBot where
  "bot0 = init ''T'' 3600 0 None"

definition bot1 :: TelegramBot where
  "bot1 = init ''T'' 3600 7 (Some ''bot.log'')"

text \<open>A poll that returns update 5, a message sent, a poll that returns update 7, an empty poll.\<close>

definition mixed_world :: world where
  "mixed_world =
     world0 [Returns (ok_response (PList [update 5])),
             Returns (ok_response (PDict [(''message_id'', PInt 1)])),
             Returns (ok_response (PList [update 7]))]"

definition mixed_ops :: "op list" where
  "mixed_ops = [GetUpdate, SendMsg 42 (PStr ''hi''), GetUpdate, GetUpdate]"


definition bot_log :: TelegramBot where
  "bot_log = init ''T'' 3600 0 (Some ''bot.log'')"

definition bad_request :: pyval where
  "bad_request =
     PDict [(''ok'', PBool False), (''error_code'', PInt 400),
            (''description'', PStr ''Bad Request: chat not found'')]"

definition http_error :: outcome where
  \<open>http_error =
     Raises (HTTPError ''https://api.telegram.org/botT/sendMessage''
               (Inr ''{"ok":false,"error_code":400,"description":"Bad Request: chat not found"}''))
       tb0\<close>


section \<open>Basic facts about the model\<close>

declare sendRequest.simps [simp del] errorHandler.simps [simp del] code_points.simps [simp del]
declare decode1.simps [simp del]

subsection \<open>UTF-8\<close>

lemma code_points_ascii:
  "(of_char a :: nat) < 0x80 \<Longrightarrow>
     code_points (a # s) = (Some (of_char a), [a]) # code_points s"
  by (simp add: code_points.simps decode1.simps)

lemma valid_utf8_Nil: "valid_utf8 []"
  by (simp add: valid_utf8_def code_points.simps)

lemma surrogate_ascii: "c < 0x80 \<Longrightarrow> \<not> surrogate c"
  by (simp add: surrogate_def)

lemma valid_utf8_Cons_ascii:
  "(of_char a :: nat) < 0x80 \<Longrightarrow> valid_utf8 (a # s) = valid_utf8 s"
  by (simp add: valid_utf8_def code_points_ascii scalar_def surrogate_ascii)

lemma valid_utf8_ascii_append: "ascii a \<Longrightarrow> valid_utf8 (a @ b) = valid_utf8 b"
  by (induction a) (simp_all add: ascii_def valid_utf8_Cons_ascii)

lemma valid_utf8_ascii: "ascii a \<Longrightarrow> valid_utf8 a"
  using valid_utf8_ascii_append [of a "[]"] by (simp add: valid_utf8_Nil)






subsection \<open>What repr prints can be encoded\<close>





lemma ascii_append: "ascii (a @ b) = (ascii a \<and> ascii b)"
  by (simp add: ascii_def)





lemma digit_chars_ascii: "n < 10 \<Longrightarrow> (of_char (digit_chars ! n) :: nat) < 0x80"
proof -
  assume "n < 10"
  moreover have "length digit_chars = 10" by (simp add: digit_chars_def)
  ultimately have "digit_chars ! n \<in> set digit_chars" by (simp only: nth_mem)
  moreover have "\<forall>c\<in>set digit_chars. (of_char c :: nat) < 0x80" by (simp add: digit_chars_def)
  ultimately show ?thesis by blast
qed

lemma ascii_str_nat: "ascii (str_nat n)"
proof (induction n rule: str_nat.induct)
  case (1 n)
  show ?case
  proof (cases "n < 10")
    case True
    then show ?thesis
      by (subst str_nat.simps) (simp add: ascii_def digit_chars_ascii)
  next
    case False
    with 1 have "ascii (str_nat (n div 10))" by simp
    moreover have "n mod 10 < 10" by simp
    ultimately show ?thesis
      using False
      by (subst str_nat.simps) (simp add: ascii_def digit_chars_ascii del: mod_less_divisor)
  qed
qed

lemma ascii_str_int: "ascii (str_int i)"
  using ascii_str_nat by (simp add: str_int_def ascii_def)


subsection \<open>Joined strings\<close>

lemma sublist_join: "x \<in> set xs \<Longrightarrow> sublist x (join sep xs)"
proof (induction xs)
  case Nil
  then show ?case by simp
next
  case (Cons y ys)
  show ?case
  proof (cases "x = y")
    case True
    then show ?thesis by (simp add: join_def)
  next
    case False
    with Cons.prems have "x \<in> set ys" by simp
    then obtain ps ss where "ys = ps @ x # ss" by (meson split_list)
    then have "join sep (y # ys)
                 = (y @ concat (map (\<lambda>y. sep @ y) ps) @ sep) @ x @ concat (map (\<lambda>y. sep @ y) ss)"
      by (simp add: join_def)
    then show ?thesis by (simp only: sublist_appendI)
  qed
qed

subsection \<open>The form encoding\<close>

lemma quote_from_bytes_append:
  "quote_from_bytes (a @ b) = quote_from_bytes a @ quote_from_bytes b"
  by (simp add: quote_from_bytes_def)

lemma digit_chars_safe: "n < 10 \<Longrightarrow> always_safe (digit_chars ! n)"
proof -
  assume "n < 10"
  moreover have "length digit_chars = 10" by (simp add: digit_chars_def)
  ultimately have "digit_chars ! n \<in> set digit_chars" by (simp only: nth_mem)
  moreover have "\<forall>c\<in>set digit_chars. always_safe c"
    by (simp add: digit_chars_def always_safe_def)
  ultimately show ?thesis by blast
qed

lemma quote_str_nat: "quote_from_bytes (str_nat n) = str_nat n"
proof (induction n rule: str_nat.induct)
  case (1 n)
  show ?case
  proof (cases "n < 10")
    case True
    then show ?thesis
      by (subst (1 2) str_nat.simps)
         (simp add: quote_from_bytes_def quote_plus_char_def digit_chars_safe)
  next
    case False
    with 1 have "quote_from_bytes (str_nat (n div 10)) = str_nat (n div 10)" by simp
    moreover have "always_safe (digit_chars ! (n mod 10))" by (simp add: digit_chars_safe)
    ultimately show ?thesis
      using False
      by (subst (1 2) str_nat.simps)
         (simp add: quote_from_bytes_append, simp add: quote_from_bytes_def quote_plus_char_def)
  qed
qed

lemma quote_str_int: "quote_from_bytes (str_int i) = str_int i"
proof -
  have "quote_from_bytes ''-'' = ''-''"
    by (simp add: quote_from_bytes_def quote_plus_char_def always_safe_def)
  then show ?thesis
    by (simp add: str_int_def quote_from_bytes_append quote_str_nat del: append_Cons)
qed

lemma quote_plus_valid: "valid_utf8 s \<Longrightarrow> quote_plus s = Inr (quote_from_bytes s)"
  by (simp add: quote_plus_def encode_utf8_def)

lemma quote_plus_str_int: "quote_plus (str_int i) = Inr (str_int i)"
  by (simp add: quote_plus_valid valid_utf8_ascii ascii_str_int quote_str_int)

lemma quote_plus_name:
  "quote_plus ''chat_id'' = Inr ''chat_id''" "quote_plus ''text'' = Inr ''text''"
  "quote_plus ''offset'' = Inr ''offset''" "quote_plus ''limit'' = Inr ''limit''"
  "quote_plus ''timeout'' = Inr ''timeout''" "quote_plus ''message_id'' = Inr ''message_id''"
  "quote_plus ''reply_markup'' = Inr ''reply_markup''"
  by (simp_all add: quote_plus_def encode_utf8_def valid_utf8_Cons_ascii valid_utf8_Nil
        quote_from_bytes_def quote_plus_char_def always_safe_def)



lemma urlencode_poll_data:
  "urlencode pr [(''offset'', Val (PInt i)), (''limit'', Val (PInt 1)), (''timeout'', Val (PInt t))]
     = Inr (''offset='' @ str_int i @ ''&limit=1&timeout='' @ str_int t)"
proof -
  have "str_int 1 = ''1''" by (simp add: str_int_def str_nat.simps digit_chars_def)
  then show ?thesis
    using quote_plus_str_int [of 1]
    by (simp add: urlencode_def quote_plus_name quote_plus_str_int join_def)
qed

subsection \<open>The bot is passed on\<close>

lemma seq_Some:
  "seq m k = Some x \<longleftrightarrow>
     (\<exists>e s w. m = Some (Inl e, s, w) \<and> x = (Inl e, s, w)) \<or>
     (\<exists>v s w. m = Some (Inr v, s, w) \<and> k v s w = Some x)"
  by (auto simp: seq_def split: option.splits sum.splits prod.splits)

lemma writeLog_self: "writeLog self w msg = (r, self', w') \<Longrightarrow> self' = self"
  by (auto simp: writeLog_def Let_def split: if_splits pyval.splits option.splits)

lemma report_self:
  assumes "\<forall>s w m r s' w'. toAdmin s w m = Some (r, s', w') \<longrightarrow> s' = s"
      and "report toAdmin self w msg = Some (r, self', w')"
  shows "self' = self"
  using assms(2) unfolding report_def seq_Some
  by (auto split: if_splits dest: assms(1)[rule_format] writeLog_self)

lemma sendRequest_self:
  "sendRequest n self w meth data = Some (r, self', w') \<Longrightarrow> self' = self"
proof (induction n arbitrary: self w meth data r self' w')
  case 0
  then show ?case by (simp add: sendRequest.simps)
next
  case (Suc n)
  have admin: "\<forall>s w m r s' w'. sendMsgToAdmin n s w m = Some (r, s', w') \<longrightarrow> s' = s"
    using Suc.IH by simp
  note rep = report_self [OF admin]
  show ?case
  proof (cases "urlencode (isprintable w) data")
    case (Inl e)
    with Suc.prems show ?thesis by (simp add: sendRequest.simps)
  next
    case (Inr form)
    show ?thesis
    proof (cases "net w 0")
      case (Raises error tb)
      with Suc.prems Inr show ?thesis
        by (auto simp: sendRequest.simps errorHandler.simps Let_def seq_Some
                 split: error.splits sum.splits dest: rep)
    next
      case (Interrupted i)
      with Suc.prems Inr show ?thesis
        by (auto simp: sendRequest.simps Let_def)
    next
      case (Returns response)
      with Suc.prems Inr show ?thesis
        by (auto simp: sendRequest.simps Let_def split: sum.splits if_splits dest: rep)
    qed
  qed
qed

text \<open>A request that is answered with a true \<^verbatim>\<open>ok\<close> and a \<^verbatim>\<open>result\<close> returns the result.\<close>

lemma sendRequest_success:
  assumes "urlencode (isprintable w) data = Inr form"
      and "net w 0 = Returns response" "getitem response ''ok'' = Inr ok" "truthy ok"
      and "getitem response ''result'' = Inr res"
  shows "sendRequest (Suc n) self w meth data =
           Some (Inr res, self, issue w \<lparr>url = URL self @ meth, body = form\<rparr>)"
  using assms by (simp add: sendRequest.simps Let_def)

subsection \<open>Running the model\<close>

lemma dashes: "replicate 10 CHR ''-'' = ''----------''"
  by (simp add: numeral_eq_Suc)

text \<open>The definitions and facts that a concrete run unfolds.\<close>

lemmas model_defs =
  sendRequest.simps errorHandler.simps getUpdate_def sendKeyboard_def deletMessage_def
  report_def seq_def Let_def writeLog_def log_configured_def init_def issue_def
  append_file_def tick_def log_line_def urlencode_def quote_plus_def encode_utf8_def
  decode_utf8_def quote_from_bytes_def quote_plus_char_def always_safe_def hex_upper_def
  join_def valid_utf8_Cons_ascii valid_utf8_Nil code_points_ascii code_points.simps(1)
  str_int_def str_nat.simps digit_chars_def dict_str_def pop_def f_locals_def repr_str_def
  repr_char_def quote_of_def bytes_repr_def dashes

section \<open>The update cursor\<close>

lemma getUpdate_success:
  assumes "successful_poll (net w 0) uid"
  shows "\<exists>res. getUpdate (Suc n) self w =
           Some (Inr res,
                 self\<lparr>offset := (case uid of None \<Rightarrow> offset self | Some i \<Rightarrow> i + 1)\<rparr>,
                 w\<lparr>net := (\<lambda>i. net w (Suc i)), requests := requests w @ [poll_request self]\<rparr>)"
proof -
  from assms obtain response ok res where
    r: "net w 0 = Returns response" "getitem response ''ok'' = Inr ok" "truthy ok"
       "getitem response ''result'' = Inr res"
    and u: "case uid of None \<Rightarrow> \<not> truthy res
            | Some i \<Rightarrow> truthy res \<and> (case getitem0 res of Inl e \<Rightarrow> False
                                      | Inr u \<Rightarrow> getitem u ''update_id'' = Inr (PInt i))"
    by (auto simp: successful_poll_def split: outcome.splits sum.splits)
  show ?thesis
    using u
    by (auto simp: getUpdate_def sendRequest_success [OF urlencode_poll_data r] seq_def
             poll_request_def issue_def split: option.splits sum.splits)
qed

lemma run_polls:
  assumes "\<forall>j<length uids. successful_poll (net w j) (uids ! j)"
  shows "map s_after (run (Suc n) self w (replicate (length uids) GetUpdate))
           = map (\<lambda>c. self\<lparr>offset := c\<rparr>) (cursors (offset self) uids) \<and>
         map (\<lambda>s. last (requests (s_world s))) (run (Suc n) self w (replicate (length uids) GetUpdate))
           = map (\<lambda>c. poll_request (self\<lparr>offset := c\<rparr>))
               (butlast (offset self # cursors (offset self) uids))"
  using assms
proof (induction uids arbitrary: self w)
  case Nil
  then show ?case by simp
next
  case (Cons uid uids)
  let ?self' = "self\<lparr>offset := (case uid of None \<Rightarrow> offset self | Some i \<Rightarrow> i + 1)\<rparr>"
  let ?w' = "w\<lparr>net := (\<lambda>i. net w (Suc i)), requests := requests w @ [poll_request self]\<rparr>"
  from Cons.prems have "successful_poll (net w 0) uid" by auto
  from getUpdate_success [OF this] obtain res where
    g: "getUpdate (Suc n) self w = Some (Inr res, ?self', ?w')" by blast
  from Cons.prems have "\<forall>j<length uids. successful_poll (net ?w' j) (uids ! j)" by auto
  from Cons.IH [OF this, of ?self'] show ?case
    using g by (cases uid) auto
qed

lemma add1_int_value: "add1 v = Inr k \<longleftrightarrow> int_value v = Some (k - 1)"
  by (cases v) auto

lemma getUpdate_offset:
  assumes "getUpdate n self w = Some (r, self', w')"
  shows "offset self' =
           (case returned_id \<lparr>s_op = GetUpdate, s_before = self, s_result = r,
                               s_after = self', s_world = w'\<rparr> of
              None \<Rightarrow> offset self | Some i \<Rightarrow> i + 1)"
proof -
  from assms obtain r0 s0 w0 where
    s: "sendRequest n self w ''getUpdates''
          [(''offset'', Val (PInt (offset self))), (''limit'', Val (PInt 1)),
           (''timeout'', Val (PInt (TIMEOUT self)))] = Some (r0, s0, w0)"
    by (auto simp: getUpdate_def Let_def seq_def split: option.splits)
  have s0: "s0 = self" using sendRequest_self [OF s] .
  show ?thesis
    using assms s s0
    by (auto simp: getUpdate_def Let_def seq_def returned_id_def add1_int_value
             split: sum.splits if_splits option.splits)
qed

lemma call_offset:
  assumes "call n self w x = Some (r, self', w')"
  shows "offset self' =
           (case returned_id \<lparr>s_op = x, s_before = self, s_result = r,
                               s_after = self', s_world = w'\<rparr> of
              None \<Rightarrow> offset self | Some i \<Rightarrow> i + 1)"
proof (cases x)
  case GetUpdate
  with assms show ?thesis using getUpdate_offset by simp
next
  case (SendMsg chatID msg)
  with assms show ?thesis
    by (auto simp: returned_id_def dest: sendRequest_self)
next
  case (SendKeyboard chatID msg keyboard)
  with assms show ?thesis
    by (auto simp: returned_id_def sendKeyboard_def dest: sendRequest_self)
next
  case (SendMsgToAdmin msg)
  with assms show ?thesis
    by (auto simp: returned_id_def dest: sendRequest_self)
next
  case (DeletMessage chatID message_id)
  with assms show ?thesis
    by (auto simp: returned_id_def deletMessage_def dest: sendRequest_self)
qed

lemma returned_ids_Cons:
  "returned_ids (s # t) = (case returned_id s of None \<Rightarrow> [] | Some i \<Rightarrow> [i]) @ returned_ids t"
  by (simp add: returned_ids_def split: option.splits)

lemma Max_bound_last:
  fixes i :: int
  assumes "\<forall>k\<in>set seen. k < i"
  shows "Max (set (seen @ [i])) = i"
proof -
  have "Max (insert i (set seen)) = i"
    using assms by (intro Max_eqI) (auto simp: less_imp_le)
  then show ?thesis by simp
qed

lemma run_cursor:
  assumes "\<forall>s\<in>set (run n self w ops). honours_offset s" and "\<forall>i\<in>set seen. i < offset self"
  shows "sorted (offset self # map (\<lambda>s. offset (s_after s)) (run n self w ops)) \<and>
         (\<forall>j<length (run n self w ops). returned_id (run n self w ops ! j) \<noteq> None \<longrightarrow>
            offset (s_after (run n self w ops ! j))
              = 1 + Max (set (seen @ returned_ids (take (Suc j) (run n self w ops)))))"
  using assms
proof (induction ops arbitrary: self w seen)
  case Nil
  then show ?case by simp
next
  case (Cons x xs)
  show ?case
  proof (cases "call n self w x")
    case None
    then show ?thesis by simp
  next
    case (Some res)
    then obtain r self' w' where c: "call n self w x = Some (r, self', w')"
      by (cases res) auto
    define s where "s = \<lparr>s_op = x, s_before = self, s_result = r, s_after = self', s_world = w'\<rparr>"
    define rest where "rest = (case r of Inl e \<Rightarrow> [] | Inr v \<Rightarrow> run n self' w' xs)"
    define seen' where "seen' = seen @ (case returned_id s of None \<Rightarrow> [] | Some i \<Rightarrow> [i])"
    have t: "run n self w (x # xs) = s # rest"
      using c by (simp add: s_def rest_def)
    have off: "offset self' = (case returned_id s of None \<Rightarrow> offset self | Some i \<Rightarrow> i + 1)"
      using call_offset [OF c] by (simp add: s_def)
    have hs: "honours_offset s" and hrest: "\<forall>s\<in>set rest. honours_offset s"
      using Cons.prems(1) unfolding t by auto
    have le: "offset self \<le> offset self'"
      using off hs by (auto simp: honours_offset_def s_def split: option.splits)
    have seen': "\<forall>i\<in>set seen'. i < offset self'"
      using Cons.prems(2) le off by (auto simp: seen'_def split: option.splits)
    have head: "returned_id s \<noteq> None \<longrightarrow>
                  offset self' = 1 + Max (set (seen @ returned_ids [s]))"
    proof
      assume "returned_id s \<noteq> None"
      then obtain i where i: "returned_id s = Some i" by auto
      with hs have "offset self \<le> i" by (simp add: honours_offset_def s_def)
      with Cons.prems(2) have "\<forall>k\<in>set seen. k < i" by auto
      from Max_bound_last [OF this] show "offset self' = 1 + Max (set (seen @ returned_ids [s]))"
        using off i by (simp add: returned_ids_Cons returned_ids_def)
    qed
    have tail: "sorted (offset self' # map (\<lambda>s. offset (s_after s)) rest) \<and>
         (\<forall>j<length rest. returned_id (rest ! j) \<noteq> None \<longrightarrow>
            offset (s_after (rest ! j)) = 1 + Max (set (seen' @ returned_ids (take (Suc j) rest))))"
    proof (cases r)
      case (Inl e)
      then show ?thesis by (simp add: rest_def)
    next
      case (Inr v)
      then have rest: "rest = run n self' w' xs" by (simp add: rest_def)
      show ?thesis
        using Cons.IH [of self' w' seen'] hrest seen' unfolding rest by blast
    qed
    have after: "s_after s = self'" by (simp add: s_def)
    have srt: "sorted (offset self # map (\<lambda>s. offset (s_after s)) (s # rest))"
      using tail le after by auto
    have idx: "\<forall>j<length (s # rest). returned_id ((s # rest) ! j) \<noteq> None \<longrightarrow>
            offset (s_after ((s # rest) ! j))
              = 1 + Max (set (seen @ returned_ids (take (Suc j) (s # rest))))"
    proof (intro allI impI)
      fix j assume j: "j < length (s # rest)" and r: "returned_id ((s # rest) ! j) \<noteq> None"
      show "offset (s_after ((s # rest) ! j))
              = 1 + Max (set (seen @ returned_ids (take (Suc j) (s # rest))))"
      proof (cases j)
        case 0
        with r head after show ?thesis by simp
      next
        case (Suc k)
        with j r tail have
          "offset (s_after (rest ! k)) = 1 + Max (set (seen' @ returned_ids (take (Suc k) rest)))"
          by simp
        moreover have "seen @ returned_ids (take (Suc j) (s # rest))
                         = seen' @ returned_ids (take (Suc k) rest)"
          by (simp add: Suc seen'_def returned_ids_Cons)
        ultimately show ?thesis using Suc by simp
      qed
    qed
    show ?thesis unfolding t using srt idx by blast
  qed
qed

section \<open>The send and delete operations leave the bot as it is\<close>

text \<open>
  Claim C10. A call of \<^verbatim>\<open>sendMsg\<close>, \<^verbatim>\<open>sendKeyboard\<close>, \<^verbatim>\<open>sendMsgToAdmin\<close> or \<^verbatim>\<open>deletMessage\<close>
  that comes back, with a value or with an exception, leaves every field of the bot
  (\<^verbatim>\<open>URL\<close>, \<^verbatim>\<open>TIMEOUT\<close>, \<^verbatim>\<open>ADMINCHATID\<close>, \<^verbatim>\<open>LOGFILEPATH\<close> and the cursor \<^verbatim>\<open>offset\<close>) as it
  was; the cursor is assigned in \<^verbatim>\<open>getUpdate\<close> only, which leaves the other fields as
  they were.
\<close>

lemma getUpdate_self:
  assumes "getUpdate n self w = Some (r, self', w')"
  shows "self' = self\<lparr>offset := offset self'\<rparr>"
proof -
  from assms obtain r0 s0 w0 where
    s: "sendRequest n self w ''getUpdates''
          [(''offset'', Val (PInt (offset self))), (''limit'', Val (PInt 1)),
           (''timeout'', Val (PInt (TIMEOUT self)))] = Some (r0, s0, w0)"
    by (auto simp: getUpdate_def Let_def seq_def split: option.splits)
  have "s0 = self" using sendRequest_self [OF s] .
  with assms s show ?thesis
    by (auto simp: getUpdate_def Let_def seq_def split: sum.splits if_splits)
qed

theorem C10_send_delete_frame:
  "(sendMsg n self w chatID msg = Some (r, self', w') \<longrightarrow> self' = self) \<and>
   (sendKeyboard n self w chatID msg keyboard = Some (r, self', w') \<longrightarrow> self' = self) \<and>
   (sendMsgToAdmin n self w msg = Some (r, self', w') \<longrightarrow> self' = self) \<and>
   (deletMessage n self w chatID message_id = Some (r, self', w') \<longrightarrow> self' = self) \<and>
   (getUpdate n self w = Some (r, self', w') \<longrightarrow> self' = self\<lparr>offset := offset self'\<rparr>)"
  by (auto simp: sendKeyboard_def deletMessage_def dest: sendRequest_self getUpdate_self)

text \<open>
  The four calls on a bot with an administrator and a log file, in a world whose network
  is down for the first request: each comes back and the bot is the same.
\<close>

theorem C10_send_delete_frame_witness:
  "(\<exists>r w'. sendMsg (Suc (Suc 0)) bot1 (world0 [net_down]) 42 (PStr ''hi'') = Some (r, bot1, w')) \<and>
   (\<exists>r w'. sendKeyboard (Suc (Suc 0)) bot1 (world0 [net_down]) 42 (PStr ''hi'')
              (Keyboard (ReplyKeyboard [[''yes''], [''no'']])) = Some (r, bot1, w')) \<and>
   (\<exists>r w'. sendMsgToAdmin (Suc (Suc 0)) bot1 (world0 [net_down]) (PStr ''hi'') = Some (r, bot1, w')) \<and>
   (\<exists>r w'. deletMessage (Suc (Suc 0)) bot1 (world0 [net_down]) 42 1 = Some (r, bot1, w')) \<and>
   (\<exists>r w'. getUpdate (Suc 0) bot1 (poll_world [5]) = Some (r, bot1\<lparr>offset := 6\<rparr>, w'))"
proof -
  have e: "\<exists>r w'. getUpdate (Suc 0) bot1 (poll_world [5]) = Some (r, bot1\<lparr>offset := 6\<rparr>, w')"
    by (simp add: model_defs bot1_def world0_def script_def net_down_def ok_response_def poll_world_def update_def)
  then obtain r5 w5 where
    e': "getUpdate (Suc 0) bot1 (poll_world [5]) = Some (r5, bot1\<lparr>offset := 6\<rparr>, w5)" by blast
  from e' C10_send_delete_frame [where n = "Suc 0" and self = bot1 and w = "poll_world [5]"
      and r = r5 and self' = "bot1\<lparr>offset := 6\<rparr>" and w' = w5]
  have "bot1\<lparr>offset := 6\<rparr> = bot1\<lparr>offset := offset (bot1\<lparr>offset := 6\<rparr>)\<rparr>" by simp
  have a: "sendMsg (Suc (Suc 0)) bot1 (world0 [net_down]) 42 (PStr ''hi'') \<noteq> None"
    by (simp add: model_defs bot1_def world0_def script_def net_down_def ok_response_def poll_world_def update_def)
  have b: "sendKeyboard (Suc (Suc 0)) bot1 (world0 [net_down]) 42 (PStr ''hi'')
              (Keyboard (ReplyKeyboard [[''yes''], [''no'']])) \<noteq> None"
    by (simp add: model_defs bot1_def world0_def script_def net_down_def ok_response_def poll_world_def update_def)
  have c: "sendMsgToAdmin (Suc (Suc 0)) bot1 (world0 [net_down]) (PStr ''hi'') \<noteq> None"
    by (simp add: model_defs bot1_def world0_def script_def net_down_def ok_response_def poll_world_def update_def)
  have d: "deletMessage (Suc (Suc 0)) bot1 (world0 [net_down]) 42 1 \<noteq> None"
    by (simp add: model_defs bot1_def world0_def script_def net_down_def ok_response_def poll_world_def update_def)
  from a obtain r1 s1 w1 where
    a': "sendMsg (Suc (Suc 0)) bot1 (world0 [net_down]) 42 (PStr ''hi'') = Some (r1, s1, w1)"
    by (metis not_None_eq prod_cases3)
  from b obtain r2 s2 w2 where
    b': "sendKeyboard (Suc (Suc 0)) bot1 (world0 [net_down]) 42 (PStr ''hi'')
              (Keyboard (ReplyKeyboard [[''yes''], [''no'']])) = Some (r2, s2, w2)"
    by (metis not_None_eq prod_cases3)
  from c obtain r3 s3 w3 where
    c': "sendMsgToAdmin (Suc (Suc 0)) bot1 (world0 [net_down]) (PStr ''hi'') = Some (r3, s3, w3)"
    by (metis not_None_eq prod_cases3)
  from d obtain r4 s4 w4 where
    d': "deletMessage (Suc (Suc 0)) bot1 (world0 [net_down]) 42 1 = Some (r4, s4, w4)"
    by (metis not_None_eq prod_cases3)
  from a' C10_send_delete_frame [of "Suc (Suc 0)" bot1 "world0 [net_down]" 42 "PStr ''hi''" r1 s1 w1]
  have "s1 = bot1" by simp
  moreover from b' C10_send_delete_frame [of "Suc (Suc 0)" bot1 "world0 [net_down]" 42 "PStr ''hi''"
      r2 s2 w2 "Keyboard (ReplyKeyboard [[''yes''], [''no'']])"]
  have "s2 = bot1" by simp
  moreover from c' C10_send_delete_frame [of "Suc (Suc 0)" bot1 "world0 [net_down]" _ "PStr ''hi''"
      r3 s3 w3]
  have "s3 = bot1" by simp
  moreover from d' C10_send_delete_frame [of "Suc (Suc 0)" bot1 "world0 [net_down]" 42 _
      r4 s4 w4 _ 1]
  have "s4 = bot1" by simp
  ultimately show ?thesis using a' b' c' d' e by simp
qed

section \<open>The cursor follows the polls\<close>

text \<open>
  Claim C2. In a sequence of successful polls, a poll that returns a non-empty result
  leaves the cursor at the returned update id plus one and an empty poll leaves it as it
  was (\<open>cursors\<close>), and the request of each poll carries as its \<^verbatim>\<open>offset\<close> field the cursor
  left by the poll before it (the bot's own cursor for the first poll).
\<close>

theorem C2_cursor_follows_polls:
  assumes "\<forall>j<length uids. successful_poll (net w j) (uids ! j)"
  shows "map (\<lambda>s. offset (s_after s)) (run (Suc n) self w (replicate (length uids) GetUpdate))
           = cursors (offset self) uids \<and>
         map (\<lambda>s. last (requests (s_world s))) (run (Suc n) self w (replicate (length uids) GetUpdate))
           = map (\<lambda>c. poll_request (self\<lparr>offset := c\<rparr>))
               (butlast (offset self # cursors (offset self) uids))"
proof -
  have "map (\<lambda>s. offset (s_after s)) (run (Suc n) self w (replicate (length uids) GetUpdate))
          = map offset (map s_after (run (Suc n) self w (replicate (length uids) GetUpdate)))"
    by simp
  also have "\<dots> = cursors (offset self) uids"
    using run_polls [OF assms, of n self] by (simp add: comp_def)
  finally show ?thesis
    using run_polls [OF assms, of n self] by simp
qed

text \<open>Three polls that return the update ids 5, 7 and 9: the cursor is 6, 8 and 10.\<close>

theorem C2_cursor_follows_polls_witness:
  "successful_poll (net (poll_world [5, 7, 9]) 0) (Some 5) \<and>
   successful_poll (net (poll_world [5, 7, 9]) 1) (Some 7) \<and>
   successful_poll (net (poll_world [5, 7, 9]) 2) (Some 9) \<and>
   map (\<lambda>s. offset (s_after s)) (run (Suc 0) bot0 (poll_world [5, 7, 9])
          [GetUpdate, GetUpdate, GetUpdate]) = [6, 8, 10] \<and>
   map (\<lambda>s. last (requests (s_world s))) (run (Suc 0) bot0 (poll_world [5, 7, 9])
          [GetUpdate, GetUpdate, GetUpdate])
     = [poll_request (bot0\<lparr>offset := 0\<rparr>), poll_request (bot0\<lparr>offset := 6\<rparr>),
        poll_request (bot0\<lparr>offset := 8\<rparr>)] \<and>
   map (\<lambda>c. body (poll_request (bot0\<lparr>offset := c\<rparr>))) [0, 6, 8]
     = [''offset=0&limit=1&timeout=3600'', ''offset=6&limit=1&timeout=3600'',
        ''offset=8&limit=1&timeout=3600'']"
proof -
  have b: "map (\<lambda>c. body (poll_request (bot0\<lparr>offset := c\<rparr>))) [0, 6, 8]
             = [''offset=0&limit=1&timeout=3600'', ''offset=6&limit=1&timeout=3600'',
                ''offset=8&limit=1&timeout=3600'']"
    by (simp add: poll_request_def bot0_def init_def urlencode_def join_def quote_plus_def
          quote_plus_char_def always_safe_def str_int_def str_nat.simps digit_chars_def)
  have h0: "successful_poll (net (poll_world [5, 7, 9]) 0) (Some 5)" by (simp add: successful_poll_def poll_world_def world0_def script_def ok_response_def update_def)
  have h1: "successful_poll (net (poll_world [5, 7, 9]) 1) (Some 7)" by (simp add: successful_poll_def poll_world_def world0_def script_def ok_response_def update_def)
  have h2: "successful_poll (net (poll_world [5, 7, 9]) 2) (Some 9)" by (simp add: successful_poll_def poll_world_def world0_def script_def ok_response_def update_def)
  have h: "\<forall>j<length [Some 5, Some 7, Some (9::int)].
             successful_poll (net (poll_world [5, 7, 9]) j) ([Some 5, Some 7, Some 9] ! j)"
    using h0 h1 h2 by (simp add: All_less_Suc numeral_2_eq_2)
  have off: "offset bot0 = 0" by (simp add: bot0_def init_def)
  from C2_cursor_follows_polls [OF h, of 0 bot0] show ?thesis
    using h0 h1 h2 off b by simp
qed

section \<open>How far the cursor is monotone\<close>

text \<open>
  Claim C8, as stated, fails: \<^verbatim>\<open>getUpdate\<close> assigns whatever id the server returned, plus
  one. Two successful polls that return the update ids 9 and then 5 leave the cursor at 10
  and then at 6: it has moved back, and it is not one more than the largest id returned.
\<close>

theorem C8_cursor_moves_back:
  "map (\<lambda>s. offset (s_after s)) (run (Suc 0) bot0 (poll_world [9, 5]) [GetUpdate, GetUpdate])
     = [10, 6] \<and>
   returned_ids (run (Suc 0) bot0 (poll_world [9, 5]) [GetUpdate, GetUpdate]) = [9, 5] \<and>
   \<not> sorted (map (\<lambda>s. offset (s_after s))
                (run (Suc 0) bot0 (poll_world [9, 5]) [GetUpdate, GetUpdate])) \<and>
   offset (s_after (run (Suc 0) bot0 (poll_world [9, 5]) [GetUpdate, GetUpdate] ! 1))
     \<noteq> 1 + Max (set (returned_ids (run (Suc 0) bot0 (poll_world [9, 5]) [GetUpdate, GetUpdate])))"
proof -
  have a: "map (\<lambda>s. offset (s_after s))
             (run (Suc 0) bot0 (poll_world [9, 5]) [GetUpdate, GetUpdate]) = [10, 6]"
    by (simp add: model_defs bot0_def poll_world_def mixed_world_def mixed_ops_def world0_def script_def ok_response_def update_def returned_ids_def returned_id_def honours_offset_def)
  have b: "returned_ids (run (Suc 0) bot0 (poll_world [9, 5]) [GetUpdate, GetUpdate]) = [9, 5]"
    by (simp add: model_defs bot0_def poll_world_def mixed_world_def mixed_ops_def world0_def script_def ok_response_def update_def returned_ids_def returned_id_def honours_offset_def)
  have c: "offset (s_after (run (Suc 0) bot0 (poll_world [9, 5]) [GetUpdate, GetUpdate] ! 1)) = 6"
    using a by (metis (no_types, lifting) One_nat_def length_Cons length_map lessI list.size(3)
        nth_Cons_0 nth_Cons_Suc nth_map)
  show ?thesis unfolding a b c by simp
qed

text \<open>
  Claim C8, amended. Along any sequence of calls on a bot, if every update a poll returns
  has an id not below the offset that poll asked for (the server honours the offset),
  then the cursor never decreases, and after each poll that returned an update it is one
  more than the largest update id returned so far.
\<close>

theorem C8_cursor_monotone:
  assumes "\<forall>s\<in>set (run n self w ops). honours_offset s"
  shows "sorted (offset self # map (\<lambda>s. offset (s_after s)) (run n self w ops)) \<and>
         (\<forall>j<length (run n self w ops). returned_id (run n self w ops ! j) \<noteq> None \<longrightarrow>
            offset (s_after (run n self w ops ! j))
              = 1 + Max (set (returned_ids (take (Suc j) (run n self w ops)))))"
  using run_cursor [OF assms, of "[]"] by simp

text \<open>
  A poll that returns update 5, a message, a poll that returns update 7 and an empty poll:
  the server honours the offsets 0, 6 and 8, and the cursor goes 6, 6, 8, 8.
\<close>

theorem C8_cursor_monotone_witness:
  "list_all honours_offset (run (Suc 0) bot0 mixed_world mixed_ops) \<and>
   map (\<lambda>s. offset (s_after s)) (run (Suc 0) bot0 mixed_world mixed_ops) = [6, 6, 8, 8] \<and>
   map returned_id (run (Suc 0) bot0 mixed_world mixed_ops) = [Some 5, None, Some 7, None] \<and>
   sorted (offset bot0 # map (\<lambda>s. offset (s_after s)) (run (Suc 0) bot0 mixed_world mixed_ops)) \<and>
   offset (s_after (run (Suc 0) bot0 mixed_world mixed_ops ! 2))
     = 1 + Max (set (returned_ids (take 3 (run (Suc 0) bot0 mixed_world mixed_ops))))"
proof -
  have h: "list_all honours_offset (run (Suc 0) bot0 mixed_world mixed_ops)"
    by (simp add: model_defs bot0_def poll_world_def mixed_world_def mixed_ops_def world0_def script_def ok_response_def update_def returned_ids_def returned_id_def honours_offset_def)
  have a: "map (\<lambda>s. offset (s_after s)) (run (Suc 0) bot0 mixed_world mixed_ops) = [6, 6, 8, 8]"
    by (simp add: model_defs bot0_def poll_world_def mixed_world_def mixed_ops_def world0_def script_def ok_response_def update_def returned_ids_def returned_id_def honours_offset_def)
  have b: "map returned_id (run (Suc 0) bot0 mixed_world mixed_ops)
             = [Some 5, None, Some 7, None]"
    by (simp add: model_defs bot0_def poll_world_def mixed_world_def mixed_ops_def world0_def script_def ok_response_def update_def returned_ids_def returned_id_def honours_offset_def)
  have len: "length (run (Suc 0) bot0 mixed_world mixed_ops) = 4"
    using arg_cong [OF a, of length] by simp
  have r2: "returned_id (run (Suc 0) bot0 mixed_world mixed_ops ! 2) \<noteq> None"
    using arg_cong [OF b, of "\<lambda>xs. xs ! 2"] len by simp
  from h have "\<forall>s\<in>set (run (Suc 0) bot0 mixed_world mixed_ops). honours_offset s"
    by (simp add: list_all_iff)
  from C8_cursor_monotone [OF this] len r2
  have "sorted (offset bot0 # map (\<lambda>s. offset (s_after s)) (run (Suc 0) bot0 mixed_world mixed_ops))"
    and "offset (s_after (run (Suc 0) bot0 mixed_world mixed_ops ! 2))
           = 1 + Max (set (returned_ids (take (Suc 2) (run (Suc 0) bot0 mixed_world mixed_ops))))"
    by auto
  then show ?thesis using h a b by (simp add: numeral_3_eq_3)
qed

section \<open>The transport step by step\<close>

lemma issue_simps:
  "net (issue w r) = (\<lambda>i. net w (Suc i))" "requests (issue w r) = requests w @ [r]"
  "clock (issue w r) = clock w" "files (issue w r) = files w"
  "open_raises (issue w r) = open_raises w" "isprintable (issue w r) = isprintable w"
  by (simp_all add: issue_def)

lemma errorHandler_report:
  "errorHandler n self w error frame locals =
     (case handler_msg (isprintable w) error frame locals of
        Inl e \<Rightarrow> Some (Inl e, self, w)
      | Inr m \<Rightarrow> report (sendMsgToAdmin n) self w (PStr m))"
  by (cases error)
     (simp_all add: errorHandler.simps handler_msg_def Let_def split: sum.splits)

lemma report_absorb:
  "seq (report f self w msg) (\<lambda>_ self w. Some (Inr PNone, self, w)) = report f self w msg"
  by (auto simp: report_def seq_def split: option.splits sum.splits prod.splits)

text \<open>A failed request is the report of its diagnostic, in the world that has seen the request.\<close>

lemma sendRequest_failed:
  assumes "urlencode (isprintable w) data = Inr form"
      and "diagnostic (isprintable w) (net w 0) meth form = Some msg"
  shows "sendRequest (Suc n) self w meth data =
           report (sendMsgToAdmin n) self (issue w \<lparr>url = URL self @ meth, body = form\<rparr>) msg"
proof (cases "net w 0")
  case (Raises error tb)
  with assms show ?thesis
    by (auto simp: sendRequest.simps Let_def diagnostic_def errorHandler_report report_absorb
          issue_simps split: sum.splits)
next
  case (Interrupted i)
  with assms show ?thesis by (simp add: diagnostic_def)
next
  case (Returns response)
  with assms show ?thesis
    by (auto simp: sendRequest.simps Let_def diagnostic_def split: sum.splits if_splits)
qed



lemma succeeds_no_diagnostic: "succeeds out \<Longrightarrow> diagnostic pr out meth form = None"
  by (auto simp: succeeds_def diagnostic_def split: outcome.splits sum.splits)


subsection \<open>The log\<close>

lemma append_after_open:
  "append_file (tick (append_file w path [])) path s = append_file (tick w) path s"
  by (simp add: append_file_def tick_def)

lemma writeLog_written:
  assumes "LOGFILEPATH self = Some path" "open_raises w path = None"
      and "valid_utf8 (log_line (clock w 0) m)"
  shows "writeLog self w (PStr m)
           = (Inr PNone, self, append_file (tick w) path (log_line (clock w 0) m))"
proof -
  have "clock (append_file w path []) 0 = clock w 0" by (simp add: append_file_def)
  with assms show ?thesis
    by (simp add: writeLog_def Let_def append_after_open)
qed

lemma writeLog_not_a_string:
  assumes "LOGFILEPATH self = Some path" "open_raises w path = None" "str_of msg = None"
  shows "writeLog self w msg = (Inl TypeError, self, tick (append_file w path []))"
  using assms by (cases msg) (simp_all add: writeLog_def Let_def)

lemma writeLog_cannot_open:
  assumes "LOGFILEPATH self = Some path" "open_raises w path = Some e"
  shows "writeLog self w msg = (Inl e, self, w)"
  using assms by (simp add: writeLog_def)


subsection \<open>Failures in a row\<close>




lemma issued_append: "issued w (rs @ ss) = issued (issued w rs) ss"
  by (induction rs arbitrary: w) simp_all







section \<open>What escapes the transport\<close>




text \<open>
  Other ways out of \<^verbatim>\<open>sendRequest\<close>, each with an exception for the caller: form data
  that cannot be encoded (before any request), an exception in the \<^verbatim>\<open>try\<close> block that is
  not of class \<^verbatim>\<open>Exception\<close>, a response with a true \<^verbatim>\<open>ok\<close> and no \<^verbatim>\<open>result\<close>, the body
  of an HTTP error that cannot be read or is not UTF-8, and a log file that cannot be
  opened.
\<close>

lemma unencodable_data_escapes:
  assumes "urlencode (isprintable w) data = Inl e"
  shows "sendRequest (Suc n) self w meth data = Some (Inl e, self, w)"
  using assms by (simp add: sendRequest.simps)

lemma surrogate_text_escapes:
  "sendMsg (Suc 0) bot0 (world0 []) 42 (PStr [CHR 0xED, CHR 0xA0, CHR 0x80])
     = Some (Inl UnicodeEncodeError, bot0, world0 [])"
proof -
  have "\<not> valid_utf8 [CHR 0xED, CHR 0xA0, CHR 0x80]"
    by (simp add: valid_utf8_def code_points.simps decode1.simps cont_def low6_def scalar_def
          surrogate_def)
  then show ?thesis
    by (simp add: model_defs)
qed

lemma interrupt_escapes:
  assumes "urlencode (isprintable w) data = Inr form" "net w 0 = Interrupted i"
  shows "sendRequest (Suc n) self w meth data
           = Some (Inl (Interrupt i), self, issue w \<lparr>url = URL self @ meth, body = form\<rparr>)"
  using assms by (simp add: sendRequest.simps Let_def)

lemma missing_result_escapes:
  assumes "urlencode (isprintable w) data = Inr form" "net w 0 = Returns response"
      and "getitem response ''ok'' = Inr ok" "truthy ok" "getitem response ''result'' = Inl e"
  shows "sendRequest (Suc n) self w meth data
           = Some (Inl e, self, issue w \<lparr>url = URL self @ meth, body = form\<rparr>)"
  using assms by (simp add: sendRequest.simps Let_def)

lemma http_error_body_escapes:
  assumes "urlencode (isprintable w) data = Inr form"
      and "net w 0 = Raises (HTTPError filename read) tb"
      and "read = Inl e \<or> (\<exists>bytes. read = Inr bytes \<and> \<not> valid_utf8 bytes \<and> e = UnicodeDecodeError)"
  shows "sendRequest (Suc n) self w meth data
           = Some (Inl e, self, issue w \<lparr>url = URL self @ meth, body = form\<rparr>)"
  using assms
  by (auto simp: sendRequest.simps Let_def errorHandler.simps seq_def decode_utf8_def)

lemma unopened_log_escapes:
  assumes "urlencode (isprintable w) data = Inr form"
      and "diagnostic (isprintable w) (net w 0) meth form = Some msg"
      and "ADMINCHATID self = 0" "LOGFILEPATH self = Some path" "path \<noteq> []"
      and "open_raises w path = Some e"
  shows "sendRequest (Suc n) self w meth data
           = Some (Inl e, self, issue w \<lparr>url = URL self @ meth, body = form\<rparr>)"
  using assms(3-6)
  by (simp add: sendRequest_failed [OF assms(1,2)] report_def seq_def log_configured_def
        writeLog_cannot_open issue_simps)

section \<open>Error handling enters itself\<close>









section \<open>The notification of a negative envelope\<close>

subsection \<open>The description inside the notification\<close>







section \<open>The log file\<close>

text \<open>
  A failure that is an exception is logged as claim C7 says: with no administrator and a
  log file that can be opened, the call appends one block (separator line, timestamp line,
  message line) to what the file held, and returns None.
\<close>

lemma exception_logged:
  assumes "urlencode (isprintable w) data = Inr form"
      and "diagnostic (isprintable w) (net w 0) meth form = Some (PStr m)"
      and "ADMINCHATID self = 0" "LOGFILEPATH self = Some path" "path \<noteq> []"
      and "open_raises w path = None" "valid_utf8 (log_line (clock w 0) m)"
  shows "\<exists>w'. sendRequest (Suc n) self w meth data = Some (Inr PNone, self, w') \<and>
           files w' path = Some ((case files w path of None \<Rightarrow> [] | Some c \<Rightarrow> c)
                                  @ ''----------'' @ ''\<newline>'' @ clock w 0 @ ''\<newline>'' @ m @ ''\<newline>'')"
proof -
  let ?w1 = "issue w \<lparr>url = URL self @ meth, body = form\<rparr>"
  have "writeLog self ?w1 (PStr m)
          = (Inr PNone, self, append_file (tick ?w1) path (log_line (clock ?w1 0) m))"
    using assms(4,6,7) by (intro writeLog_written) (simp_all add: issue_simps)
  then show ?thesis
    using assms(3-5)
    by (simp add: sendRequest_failed [OF assms(1,2)] report_def seq_def log_configured_def
          issue_simps append_file_def tick_def log_line_def dashes)
qed

text \<open>
  A negative envelope is passed to \<^verbatim>\<open>writeLog\<close> as the dictionary it is: the file is opened
  and the concatenation of the line raises TypeError. Nothing is appended and the
  exception escapes \<^verbatim>\<open>sendRequest\<close>.
\<close>

lemma negative_envelope_not_logged:
  assumes "urlencode (isprintable w) data = Inr form"
      and "net w 0 = Returns (PDict kvs)" "getitem (PDict kvs) ''ok'' = Inr ok" "\<not> truthy ok"
      and "ADMINCHATID self = 0" "LOGFILEPATH self = Some path" "path \<noteq> []"
      and "open_raises w path = None"
  shows "\<exists>w'. sendRequest (Suc n) self w meth data = Some (Inl TypeError, self, w') \<and>
           files w' path = Some (case files w path of None \<Rightarrow> [] | Some c \<Rightarrow> c)"
proof -
  let ?w1 = "issue w \<lparr>url = URL self @ meth, body = form\<rparr>"
  have d: "diagnostic (isprintable w) (net w 0) meth form = Some (PDict kvs)"
    using assms(2-4) by (simp add: diagnostic_def)
  have "writeLog self ?w1 (PDict kvs) = (Inl TypeError, self, tick (append_file ?w1 path []))"
    using assms(6,8) by (intro writeLog_not_a_string) (simp_all add: issue_simps)
  then show ?thesis
    using assms(5-7)
    by (simp add: sendRequest_failed [OF assms(1) d] report_def seq_def log_configured_def
          issue_simps append_file_def tick_def)
qed

text \<open>
  Claim C7 at its failing input: a bot with the log file \<^verbatim>\<open>bot.log\<close> and no administrator
  sends a message that is answered with the envelope "Bad Request: chat not found".
  \<^verbatim>\<open>sendMsg\<close> raises TypeError, and the log file, created by the open, is empty: no block
  was appended for this failure.
\<close>

theorem C7_negative_envelope_log_raises:
  "\<exists>w'. sendMsg (Suc 0) bot_log (world0 [Returns bad_request]) 42 (PStr ''hi'')
          = Some (Inl TypeError, bot_log, w') \<and>
        files w' ''bot.log'' = Some []"
  by (simp add: model_defs bot_log_def bad_request_def world0_def script_def)

section \<open>What the diagnostic shows\<close>

text \<open>
  The names \<^verbatim>\<open>errorHandler\<close> pops are not names of the frame it reads: the frame of
  \<^verbatim>\<open>sendRequest\<close> has no local \<^verbatim>\<open>chatID\<close>, \<^verbatim>\<open>text\<close>, \<^verbatim>\<open>keyboard\<close> or \<^verbatim>\<open>url\<close>. The four
  pops change nothing, and the encoded form fields, held by the local \<^verbatim>\<open>data\<close>, stay in
  the message.
\<close>

lemma pops_change_nothing:
  "pop ''url'' (pop ''keyboard'' (pop ''text'' (pop ''chatID'' (f_locals pr meth data tb))))
     = f_locals pr meth data tb"
  by (cases "connection_repr tb") (simp_all add: pop_def f_locals_def)

lemma data_in_diagnostic:
  "\<exists>ps ss. handler_msg pr (Exception error_str) frame (f_locals pr meth data tb)
             = Inr (ps @ (repr_str pr ''data'' @ '': '' @ bytes_repr data) @ ss)"
proof -
  have "(''data'', bytes_repr data) \<in> set (f_locals pr meth data tb)"
    by (simp add: f_locals_def)
  then have "repr_str pr ''data'' @ '': '' @ bytes_repr data
               \<in> set (map (\<lambda>kv. repr_str pr (fst kv) @ '': '' @ snd kv) (f_locals pr meth data tb))"
    by force
  from sublist_join [OF this, of "'', ''"] obtain ps ss where
    "join '', '' (map (\<lambda>kv. repr_str pr (fst kv) @ '': '' @ snd kv) (f_locals pr meth data tb))
       = ps @ (repr_str pr ''data'' @ '': '' @ bytes_repr data) @ ss"
    unfolding sublist_def by blast
  then have "handler_msg pr (Exception error_str) frame (f_locals pr meth data tb)
               = Inr ((error_str @ ''\<newline>'' @ frame @ ''\<newline>'' @ ''{'' @ ps)
                       @ (repr_str pr ''data'' @ '': '' @ bytes_repr data) @ (ss @ ''}''))"
    by (simp add: handler_msg_def pops_change_nothing dict_str_def)
  then show ?thesis by blast
qed

text \<open>
  Claim C9 at its failing input: a bot with a log file sends the text \<^verbatim>\<open>hello\<close> to chat 42
  while the network is down. The block written to the log shows the local \<^verbatim>\<open>data\<close>, and
  in it the destination chat id and the message text.
\<close>

theorem C9_diagnostic_shows_form_fields:
  "\<exists>w'. sendMsg (Suc 0) bot_log (world0 [net_down]) 42 (PStr ''hello'')
          = Some (Inr PNone, bot_log, w') \<and>
        files w' ''bot.log'' = Some
          (''----------'' @ ''\<newline>'' @
           ''Wed Nov  4 01:09:00 2026'' @ ''\<newline>'' @
           ''<urlopen error [Errno -2] Name or service not known>'' @ ''\<newline>'' @
           ''<frame at 0x7f00, file 'core.py', line 33, code sendRequest>'' @ ''\<newline>'' @
           ''{'self': <core.TelegramBot object at 0x7f01>, 'method': 'sendMessage', '' @
           '''data': b'chat_id=42&text=hello', '' @
           '''newRequest': <urllib.request.Request object at 0x7f02>, '' @
           '''error': URLError(gaierror(-2, 'Name or service not known'))}'' @ ''\<newline>'')"
  by (simp add: model_defs bot_log_def net_down_def tb0_def world0_def script_def)

section \<open>Lexing and recognising what the serializers write\<close>

declare lex.simps [simp del]

lemma lex_structural:
  "lex (CHR ''{'' # s) = map_option (Cons LBrace) (lex s)"
  "lex (CHR ''}'' # s) = map_option (Cons RBrace) (lex s)"
  "lex (CHR ''['' # s) = map_option (Cons LBracket) (lex s)"
  "lex (CHR '']'' # s) = map_option (Cons RBracket) (lex s)"
  "lex (CHR '':'' # s) = map_option (Cons Colon) (lex s)"
  "lex (CHR '','' # s) = map_option (Cons Comma) (lex s)"
  by (simp_all add: lex.simps is_ws_def)

lemma lex_string_plain: "plain_label l \<Longrightarrow> lex_string (l @ CHR 0x22 # s) = Some (l, s)"
  by (induction l) (auto simp: plain_label_def)

lemma lex_quoted:
  "plain_label l \<Longrightarrow> lex (CHR 0x22 # l @ CHR 0x22 # s) = map_option (Cons (TString l)) (lex s)"
  by (simp add: lex.simps is_ws_def lex_string_plain)

lemma lex_true: "lex (CHR ''t'' # CHR ''r'' # CHR ''u'' # CHR ''e'' # s) = map_option (Cons TTrue) (lex s)"
  by (simp add: lex.simps is_ws_def)

lemma plain_keys:
  "plain_label ''text''" "plain_label ''callback_data''" "plain_label ''inline_keyboard''"
  "plain_label ''keyboard''" "plain_label ''resize_keyboard''" "plain_label ''one_time_keyboard''"
  by (simp_all add: plain_label_def)

lemma map_option_Cons_append:
  "map_option (Cons t) (map_option ((@) ts) x) = map_option ((@) (t # ts)) x"
  by (cases x) simp_all

lemma map_option_append_append:
  "map_option ((@) ts) (map_option ((@) us) x) = map_option ((@) (ts @ us)) x"
  by (cases x) simp_all

lemma map_option_Cons_Cons:
  "map_option (Cons t) (map_option (Cons u) x) = map_option ((@) [t, u]) x"
  by (cases x) simp_all

lemma map_option_append_Cons:
  "map_option ((@) ts) (map_option (Cons u) x) = map_option ((@) (ts @ [u])) x"
  by (cases x) simp_all

lemma lex_key:
  "plain_label k \<Longrightarrow>
     lex (CHR 0x22 # k @ CHR 0x22 # CHR '':'' # s) = map_option ((@) [TString k, Colon]) (lex s)"
  by (simp add: lex_quoted lex_structural map_option_Cons_Cons)

subsection \<open>The serializers in closed form\<close>

lemma inline_buttons_eq: "inline_buttons acc row = acc @ concat (map inline_button_str row)"
  by (induction row arbitrary: acc) (simp_all add: inline_button_str_def)

lemma inline_rows_eq:
  "inline_rows acc g = acc @ concat (map (\<lambda>row. inline_row_str row @ '','') g)"
  by (induction g arbitrary: acc) (simp_all add: inline_buttons_eq inline_row_str_def)

lemma reply_buttons_eq: "reply_buttons acc row = acc @ concat (map reply_button_str row)"
  by (induction row arbitrary: acc) (simp_all add: reply_button_str_def)

lemma reply_rows_eq:
  "reply_rows acc g = acc @ concat (map (\<lambda>row. reply_row_str row @ '','') g)"
  by (induction g arbitrary: acc) (simp_all add: reply_buttons_eq reply_row_str_def)

text \<open>Dropping the last character of a non-empty sequence of rows drops the last comma.\<close>

lemma butlast_rows:
  assumes "g \<noteq> []"
  shows "butlast (acc @ concat (map (\<lambda>row. f row @ '','') g))
           = acc @ concat (map (\<lambda>row. f row @ '','') (butlast g)) @ f (last g)"
proof -
  from assms have "g = butlast g @ [last g]" by simp
  then have "acc @ concat (map (\<lambda>row. f row @ '','') g)
               = (acc @ concat (map (\<lambda>row. f row @ '','') (butlast g)) @ f (last g)) @ '',''"
    by (metis (no_types, lifting) append.assoc append_Nil2 concat.simps concat_append
        list.simps(8,9) map_append)
  then show ?thesis by (simp only: butlast_snoc)
qed

lemma InlineKeyboard_str_eq:
  assumes "g \<noteq> []"
  shows \<open>InlineKeyboard_str g =
           ''{"inline_keyboard":['' @ concat (map (\<lambda>row. inline_row_str row @ '','') (butlast g))
             @ inline_row_str (last g) @ '']}''\<close>
  unfolding InlineKeyboard_str_def inline_rows_eq butlast_rows [OF assms] by simp

lemma ReplyKeyboard_str_eq:
  assumes "g \<noteq> []"
  shows \<open>ReplyKeyboard_str g =
           ''{"keyboard":['' @ concat (map (\<lambda>row. reply_row_str row @ '','') (butlast g))
             @ reply_row_str (last g) @ ''],"resize_keyboard":true,"one_time_keyboard":true}''\<close>
  unfolding ReplyKeyboard_str_def reply_rows_eq butlast_rows [OF assms] by simp

subsection \<open>Their tokens\<close>

lemma lex_concat:
  assumes "\<And>x s. x \<in> set xs \<Longrightarrow> lex (f x @ s) = map_option ((@) (t x)) (lex s)"
  shows "lex (concat (map f xs) @ s) = map_option ((@) (concat (map t xs))) (lex s)"
  using assms
proof (induction xs)
  case Nil
  show ?case by (simp add: option.map_ident)
next
  case (Cons x xs)
  then show ?case by (cases "lex s") simp_all
qed

lemma lex_inline_button:
  assumes "plain_label l"
  shows "lex (inline_button_str l @ s) = map_option ((@) (inline_button_toks l)) (lex s)"
  using assms
  by (cases "lex s")
     (simp_all add: inline_button_str_def inline_button_toks_def lex_structural lex_quoted
        lex_key [OF plain_keys(1), simplified] lex_key [OF plain_keys(2), simplified])

lemma lex_inline_row:
  assumes "list_all plain_label row"
  shows "lex (inline_row_str row @ s) = map_option ((@) (inline_row_toks row)) (lex s)"
proof -
  have "lex (concat (map inline_button_str row) @ CHR '']'' # s)
          = map_option ((@) (concat (map inline_button_toks row))) (lex (CHR '']'' # s))"
    using assms by (intro lex_concat lex_inline_button) (simp add: list_all_iff)
  then show ?thesis
    by (cases "lex s") (simp_all add: inline_row_str_def inline_row_toks_def lex_structural)
qed

lemma lex_reply_button:
  assumes "plain_label l"
  shows "lex (reply_button_str l @ s) = map_option ((@) [TString l]) (lex s)"
  using assms by (cases "lex s") (simp_all add: reply_button_str_def lex_quoted)

lemma lex_reply_row:
  assumes "list_all plain_label row"
  shows "lex (reply_row_str row @ s) = map_option ((@) (reply_row_toks row)) (lex s)"
proof -
  have "lex (concat (map reply_button_str row) @ CHR '']'' # s)
          = map_option ((@) (concat (map (\<lambda>l. [TString l]) row))) (lex (CHR '']'' # s))"
    using assms by (intro lex_concat lex_reply_button) (simp add: list_all_iff)
  moreover have "concat (map (\<lambda>l. [TString l]) row) = map TString row"
    by (induction row) simp_all
  ultimately show ?thesis
    by (cases "lex s") (simp_all add: reply_row_str_def reply_row_toks_def lex_structural)
qed

lemma lex_row_comma:
  assumes "lex (f row @ CHR '','' # s) = map_option ((@) (t row)) (lex (CHR '','' # s))"
  shows "lex ((f row @ '','') @ s) = map_option ((@) (t row @ [Comma])) (lex s)"
  using assms by (cases "lex s") (simp_all add: lex_structural)

lemma lex_InlineKeyboard:
  assumes "g \<noteq> []" "list_all (list_all plain_label) g"
  shows "lex (InlineKeyboard_str g) =
           Some ([LBrace, TString ''inline_keyboard'', Colon, LBracket]
                 @ concat (map (\<lambda>row. inline_row_toks row @ [Comma]) (butlast g))
                 @ inline_row_toks (last g) @ [RBracket, RBrace])"
proof -
  have rows: "\<And>row s. row \<in> set g \<Longrightarrow>
                lex (inline_row_str row @ s) = map_option ((@) (inline_row_toks row)) (lex s)"
    using assms(2) by (intro lex_inline_row) (simp add: list_all_iff)
  have a: "\<And>s. lex (concat (map (\<lambda>row. inline_row_str row @ '','') (butlast g)) @ s)
             = map_option ((@) (concat (map (\<lambda>row. inline_row_toks row @ [Comma]) (butlast g)))) (lex s)"
    by (intro lex_concat lex_row_comma rows) (meson in_set_butlastD)
  have b: "\<And>s. lex (inline_row_str (last g) @ s)
             = map_option ((@) (inline_row_toks (last g))) (lex s)"
    using assms(1) by (intro rows) simp
  have c: "lex ''[]}'' = Some [LBracket, RBracket, RBrace]"
    by (simp add: lex_structural lex.simps(1))
  show ?thesis
    unfolding InlineKeyboard_str_eq [OF assms(1)]
    using c
    by (simp add: lex_structural lex_key [OF plain_keys(3), simplified] a b lex.simps(1))
qed

lemma lex_ReplyKeyboard:
  assumes "g \<noteq> []" "list_all (list_all plain_label) g"
  shows "lex (ReplyKeyboard_str g) =
           Some ([LBrace, TString ''keyboard'', Colon, LBracket]
                 @ concat (map (\<lambda>row. reply_row_toks row @ [Comma]) (butlast g))
                 @ reply_row_toks (last g)
                 @ [RBracket, Comma, TString ''resize_keyboard'', Colon, TTrue, Comma,
                    TString ''one_time_keyboard'', Colon, TTrue, RBrace])"
proof -
  have rows: "\<And>row s. row \<in> set g \<Longrightarrow>
                lex (reply_row_str row @ s) = map_option ((@) (reply_row_toks row)) (lex s)"
    using assms(2) by (intro lex_reply_row) (simp add: list_all_iff)
  have a: "\<And>s. lex (concat (map (\<lambda>row. reply_row_str row @ '','') (butlast g)) @ s)
             = map_option ((@) (concat (map (\<lambda>row. reply_row_toks row @ [Comma]) (butlast g)))) (lex s)"
    by (intro lex_concat lex_row_comma rows) (meson in_set_butlastD)
  have b: "\<And>s. lex (reply_row_str (last g) @ s)
             = map_option ((@) (reply_row_toks (last g))) (lex s)"
    using assms(1) by (intro rows) simp
  show ?thesis
    unfolding ReplyKeyboard_str_eq [OF assms(1)]
    by (simp add: lex_structural lex_key [OF plain_keys(4), simplified]
          lex_key [OF plain_keys(5), simplified] lex_key [OF plain_keys(6), simplified]
          lex_true a b lex.simps(1))
qed

subsection \<open>Their values\<close>

lemma feeds_append:
  "feeds s (ts @ us) = (case feeds s ts of None \<Rightarrow> None | Some s' \<Rightarrow> feeds s' us)"
  by (induction ts arbitrary: s) (auto split: option.splits)

lemma feeds_elems:
  assumes "\<And>x st ts. x \<in> set xs \<Longrightarrow> feeds (ExpValue st) (t x @ ts) = feeds (Got (j x) st) ts"
  shows "feeds (ExpValue (InArr acc # st)) (concat (map (\<lambda>x. t x @ [Comma]) xs) @ ts)
           = feeds (ExpValue (InArr (rev (map j xs) @ acc) # st)) ts"
  using assms
proof (induction xs arbitrary: acc)
  case Nil
  show ?case by simp
next
  case (Cons x xs)
  have "feeds (ExpValue (InArr acc # st)) (concat (map (\<lambda>x. t x @ [Comma]) (x # xs)) @ ts)
          = feeds (ExpValue (InArr acc # st))
              (t x @ Comma # concat (map (\<lambda>x. t x @ [Comma]) xs) @ ts)"
    by simp
  also have "\<dots> = feeds (Got (j x) (InArr acc # st))
                     (Comma # concat (map (\<lambda>x. t x @ [Comma]) xs) @ ts)"
    by (rule Cons.prems) simp
  also have "\<dots> = feeds (ExpValue (InArr (j x # acc) # st))
                     (concat (map (\<lambda>x. t x @ [Comma]) xs) @ ts)"
    by simp
  also have "\<dots> = feeds (ExpValue (InArr (rev (map j xs) @ j x # acc) # st)) ts"
    using Cons.prems by (intro Cons.IH) simp
  finally show ?case by simp
qed

text \<open>A non-empty array of elements that each start with a bracket, written with commas.\<close>

lemma feeds_array:
  assumes elem: "\<And>x st ts. x \<in> set xs \<Longrightarrow> feeds (ExpValue st) (t x @ ts) = feeds (Got (j x) st) ts"
      and start: "\<And>x. x \<in> set xs \<Longrightarrow> \<exists>ts. t x = LBracket # ts"
      and ne: "xs \<noteq> []"
  shows "feeds (ArrOpen st)
           (concat (map (\<lambda>x. t x @ [Comma]) (butlast xs)) @ t (last xs) @ RBracket # ts)
           = feeds (Got (JArray (map j xs)) st) ts"
proof -
  let ?rest = "concat (map (\<lambda>x. t x @ [Comma]) (butlast xs)) @ t (last xs) @ RBracket # ts"
  have "\<exists>us. ?rest = LBracket # us"
  proof (cases "butlast xs")
    case Nil
    with start [of "last xs"] ne show ?thesis by auto
  next
    case (Cons y ys)
    then have "y \<in> set xs" by (metis in_set_butlastD list.set_intros(1))
    with start [of y] Cons show ?thesis by auto
  qed
  then obtain us where us: "?rest = LBracket # us" by blast
  have "feeds (ArrOpen st) ?rest = feeds (ExpValue (InArr [] # st)) ?rest"
    unfolding us by simp
  also have "\<dots> = feeds (ExpValue (InArr (rev (map j (butlast xs)) @ []) # st))
                     (t (last xs) @ RBracket # ts)"
    by (intro feeds_elems elem) (meson in_set_butlastD)
  also have "\<dots> = feeds (Got (j (last xs)) (InArr (rev (map j (butlast xs))) # st)) (RBracket # ts)"
    using ne by (simp add: elem)
  also have "\<dots> = feeds (Got (JArray (map j (butlast xs) @ [j (last xs)])) st) ts"
    by simp
  also have "map j (butlast xs) @ [j (last xs)] = map j xs"
    using ne by (metis append_butlast_last_id list.simps(8,9) map_append)
  finally show ?thesis .
qed

lemma feeds_inline_row:
  assumes "length row \<le> 1"
  shows "feeds (ExpValue st) (inline_row_toks row @ ts)
           = feeds (Got (JArray (map inline_button_json row)) st) ts"
proof (cases row)
  case Nil
  then show ?thesis by (simp add: inline_row_toks_def)
next
  case (Cons l ls)
  with assms have "ls = []" by simp
  with Cons show ?thesis
    by (simp add: inline_row_toks_def inline_button_toks_def inline_button_json_def)
qed

lemma feeds_reply_row:
  assumes "length row \<le> 1"
  shows "feeds (ExpValue st) (reply_row_toks row @ ts)
           = feeds (Got (JArray (map JString row)) st) ts"
proof (cases row)
  case Nil
  then show ?thesis by (simp add: reply_row_toks_def)
next
  case (Cons l ls)
  with assms have "ls = []" by simp
  with Cons show ?thesis by (simp add: reply_row_toks_def)
qed

lemma simple_gridD:
  assumes "simple_grid g"
  shows "g \<noteq> []" "list_all (list_all plain_label) g" "\<And>row. row \<in> set g \<Longrightarrow> length row \<le> 1"
  using assms by (auto simp: simple_grid_def list_all_iff)

lemma loads_InlineKeyboard:
  assumes "simple_grid g"
  shows "json_loads (InlineKeyboard_str g) = Some (inline_keyboard_json g)"
proof -
  note g = simple_gridD [OF assms]
  have "feeds (ArrOpen [InObj [] ''inline_keyboard''])
          (concat (map (\<lambda>row. inline_row_toks row @ [Comma]) (butlast g))
           @ inline_row_toks (last g) @ RBracket # [RBrace])
        = feeds (Got (JArray (map (\<lambda>row. JArray (map inline_button_json row)) g))
                   [InObj [] ''inline_keyboard'']) [RBrace]"
    using g by (intro feeds_array feeds_inline_row) (auto simp: inline_row_toks_def)
  then show ?thesis
    by (simp add: json_loads_def lex_InlineKeyboard [OF g(1,2)] json_parse_def
          inline_keyboard_json_def)
qed

lemma loads_ReplyKeyboard:
  assumes "simple_grid g"
  shows "json_loads (ReplyKeyboard_str g) = Some (reply_keyboard_json g)"
proof -
  note g = simple_gridD [OF assms]
  let ?tail = "[Comma, TString ''resize_keyboard'', Colon, TTrue, Comma,
                TString ''one_time_keyboard'', Colon, TTrue, RBrace]"
  have "feeds (ArrOpen [InObj [] ''keyboard''])
          (concat (map (\<lambda>row. reply_row_toks row @ [Comma]) (butlast g))
           @ reply_row_toks (last g) @ RBracket # ?tail)
        = feeds (Got (JArray (map (\<lambda>row. JArray (map JString row)) g))
                   [InObj [] ''keyboard'']) ?tail"
    using g by (intro feeds_array feeds_reply_row) (auto simp: reply_row_toks_def)
  then show ?thesis
    by (simp add: json_loads_def lex_ReplyKeyboard [OF g(1,2)] json_parse_def
          reply_keyboard_json_def)
qed

section \<open>The keyboards as JSON\<close>

text \<open>
  Claim C1, as stated, fails: a label is written between quotes as it is. The grid with
  the one button whose label is a double quote is serialized to a text that is not JSON.
\<close>

theorem C1_inline_quote_label_invalid:
  "\<not> valid_json (InlineKeyboard_str [[[CHR 0x22]]])"
  by (simp add: valid_json_def json_loads_def InlineKeyboard_str_def lex.simps is_ws_def
        lex_number_def lex_int_def is_digit_def)

text \<open>
  Claim C1, amended. For a grid that is not empty, has at most one button in a row and
  only labels without quote, backslash and control characters, \<^verbatim>\<open>InlineKeyboard.__str__\<close>
  writes valid JSON: an object whose \<^verbatim>\<open>inline_keyboard\<close> is the array of the rows, each row
  the array of its buttons, each button an object whose \<^verbatim>\<open>text\<close> and \<^verbatim>\<open>callback_data\<close> are
  both the label.
\<close>

theorem C1_inline_keyboard_json:
  assumes "simple_grid g"
  shows "valid_json (InlineKeyboard_str g) \<and>
         json_loads (InlineKeyboard_str g) =
           Some (JObject [(''inline_keyboard'',
                   JArray (map (\<lambda>row. JArray (map (\<lambda>l.
                     JObject [(''text'', JString l), (''callback_data'', JString l)]) row)) g))])"
  using loads_InlineKeyboard [OF assms]
  by (simp add: valid_json_def inline_keyboard_json_def inline_button_json_def [abs_def])

theorem C1_inline_keyboard_json_witness:
  "simple_grid [[''Yes''], [], [''No'']] \<and>
   valid_json (InlineKeyboard_str [[''Yes''], [], [''No'']]) \<and>
   json_loads (InlineKeyboard_str [[''Yes''], [], [''No'']]) =
     Some (JObject [(''inline_keyboard'',
       JArray [JArray [JObject [(''text'', JString ''Yes''), (''callback_data'', JString ''Yes'')]],
               JArray [],
               JArray [JObject [(''text'', JString ''No''), (''callback_data'', JString ''No'')]]])])"
proof -
  have h: "simple_grid [[''Yes''], [], [''No'']]"
    by (simp add: simple_grid_def plain_label_def)
  from C1_inline_keyboard_json [OF h] show ?thesis using h by simp
qed

text \<open>
  The two other ways in which the text is not JSON: the buttons of a row are written
  without a comma between them, and for the empty grid the character dropped at the end
  is the opening bracket.
\<close>

lemma inline_two_buttons_invalid: "\<not> valid_json (InlineKeyboard_str [[''a'', ''b'']])"
  by (simp add: valid_json_def json_loads_def InlineKeyboard_str_def lex.simps is_ws_def
        json_parse_def)

lemma inline_empty_grid_invalid: "\<not> valid_json (InlineKeyboard_str [])"
  by (simp add: valid_json_def json_loads_def InlineKeyboard_str_def lex.simps is_ws_def
        json_parse_def)

text \<open>
  Claim C4, as stated, fails in the same way: the reply keyboard with the one button whose
  label is a double quote is serialized to a text that is not JSON.
\<close>

theorem C4_reply_quote_label_invalid:
  "\<not> valid_json (ReplyKeyboard_str [[[CHR 0x22]]])"
  by (simp add: valid_json_def json_loads_def ReplyKeyboard_str_def lex.simps is_ws_def
        lex_number_def lex_int_def is_digit_def json_parse_def)

text \<open>
  Claim C4, amended. For a grid that is not empty, has at most one button in a row and
  only labels without quote, backslash and control characters, \<^verbatim>\<open>ReplyKeyboard.__str__\<close>
  writes valid JSON: an object whose \<^verbatim>\<open>keyboard\<close> is the array of the rows, each row the
  array of its labels as strings, and whose \<^verbatim>\<open>resize_keyboard\<close> and \<^verbatim>\<open>one_time_keyboard\<close>
  are both true.
\<close>

theorem C4_reply_keyboard_json:
  assumes "simple_grid g"
  shows "valid_json (ReplyKeyboard_str g) \<and>
         json_loads (ReplyKeyboard_str g) =
           Some (JObject [(''keyboard'', JArray (map (\<lambda>row. JArray (map JString row)) g)),
                          (''resize_keyboard'', JBool True),
                          (''one_time_keyboard'', JBool True)])"
  using loads_ReplyKeyboard [OF assms]
  by (simp add: valid_json_def reply_keyboard_json_def)

theorem C4_reply_keyboard_json_witness:
  "simple_grid [[''Yes''], [], [''No'']] \<and>
   valid_json (ReplyKeyboard_str [[''Yes''], [], [''No'']]) \<and>
   json_loads (ReplyKeyboard_str [[''Yes''], [], [''No'']]) =
     Some (JObject [(''keyboard'', JArray [JArray [JString ''Yes''], JArray [], JArray [JString ''No'']]),
                    (''resize_keyboard'', JBool True),
                    (''one_time_keyboard'', JBool True)])"
proof -
  have h: "simple_grid [[''Yes''], [], [''No'']]"
    by (simp add: simple_grid_def plain_label_def)
  from C4_reply_keyboard_json [OF h] show ?thesis using h by simp
qed

lemma reply_two_buttons_invalid: "\<not> valid_json (ReplyKeyboard_str [[''a'', ''b'']])"
  by (simp add: valid_json_def json_loads_def ReplyKeyboard_str_def lex.simps is_ws_def
        json_parse_def)

lemma reply_empty_grid_invalid: "\<not> valid_json (ReplyKeyboard_str [])"
  by (simp add: valid_json_def json_loads_def ReplyKeyboard_str_def lex.simps is_ws_def
        json_parse_def)

end
